theory Spec2Isabelle
  imports Complex_Main "HOL-Library.Char_ord" "HOL-Library.List_Lexorder" "HOL-Library.Extended_Nat"
begin

section \<open>The data model\<close>

text \<open>
  The script \<^verbatim>\<open>scripts/cleaning-data.py\<close> cleans one table of cafe sales with pandas.
  The embedding starts at the DataFrame that \<^verbatim>\<open>pd.read_csv\<close> returns and ends at the
  DataFrame handed to \<^verbatim>\<open>to_csv\<close>.

  A cell is a tagged value. \<open>NaN\<close> is the missing marker (pandas' NaN, None and NaT alike:
  \<^verbatim>\<open>dropna\<close>, \<^verbatim>\<open>fillna\<close> and \<^verbatim>\<open>mode\<close> treat them as one). The carrier \<open>'n\<close> of
  the numbers (int64 or float64 values other than NaN, the infinities included) is abstract,
  and \<open>\<le>\<close> is the order \<^verbatim>\<open>np.sort\<close> uses. The same holds for the timestamps \<open>'d\<close>.
\<close>

datatype ('n, 'd) cell = NaN | Num 'n | Date 'd | Str string

text \<open>
  A row maps a column label to its cell; only the labels of the header are meaningful.
  A DataFrame is its header, in order, and its rows, in order.
\<close>

type_synonym ('n, 'd) row = "string \<Rightarrow> ('n, 'd) cell"

record ('n, 'd) dataframe =
  columns :: "string list"
  rows :: "('n, 'd) row list"

text \<open>\<^verbatim>\<open>df.values\<close>: the table as a list of tuples, one per row, in header order.\<close>

definition row_values :: "string list \<Rightarrow> ('n, 'd) row \<Rightarrow> ('n, 'd) cell list" where
  "row_values cols r = map r cols"

definition df_values :: "('n, 'd) dataframe \<Rightarrow> ('n, 'd) cell list list" where
  "df_values df = map (row_values (columns df)) (rows df)"

text \<open>
  The exceptions the script can meet. A \<open>KeyError\<close> carries its key: one missing label
  (\<^verbatim>\<open>df[column]\<close>), the list of missing labels (\<^verbatim>\<open>dropna(subset=...)\<close>), or a position
  (\<^verbatim>\<open>mode()[0]\<close> on an empty result).
\<close>

datatype key = Label string | Labels "string list" | Position nat

datatype py_error =
    FileNotFoundError
  | PermissionError
  | IsADirectoryError
  | ParserError
  | KeyError key

text \<open>
  What the script does not define itself is a parameter: how pandas reads a number or a
  timestamp out of a text cell, and a timestamp out of a number (\<^verbatim>\<open>errors='coerce'\<close>:
  \<open>None\<close> stands for a value that does not parse), and the product of two numbers as
  the numeric columns compute it: \<open>None\<close> when the product of two numbers is NaN, as
  \<^verbatim>\<open>inf * 0\<close> in float64.
\<close>

record ('n, 'd) pandas =
  numeric_of_text :: "string \<Rightarrow> 'n option"
  datetime_of_text :: "string \<Rightarrow> 'd option"
  datetime_of_number :: "'n \<Rightarrow> 'd option"
  multiply :: "'n \<Rightarrow> 'n \<Rightarrow> 'n option"

section \<open>Column access\<close>

text \<open>\<^verbatim>\<open>df[column]\<close>, read: the column's cells in row order, or KeyError.\<close>

definition get_column :: "string \<Rightarrow> ('n, 'd) dataframe \<Rightarrow> py_error + ('n, 'd) cell list" where
  "get_column c df =
     (if c \<in> set (columns df) then Inr (map (\<lambda>r. r c) (rows df))
      else Inl (KeyError (Label c)))"

text \<open>
  \<^verbatim>\<open>df[column] = series\<close>: the series is aligned with the rows; a label that is not in the
  header yet is appended to it.
\<close>

definition set_column :: "string \<Rightarrow> ('n, 'd) cell list \<Rightarrow> ('n, 'd) dataframe \<Rightarrow> ('n, 'd) dataframe" where
  "set_column c vs df =
     \<lparr>columns = (if c \<in> set (columns df) then columns df else columns df @ [c]),
      rows = map (\<lambda>(r, v). r(c := v)) (zip (rows df) vs)\<rparr>"

section \<open>Step 1: adjusting data types (lines 41-49)\<close>

text \<open>
  \<^verbatim>\<open>pd.to_numeric(series, errors='coerce')\<close>: a number stays, a text is parsed, and what
  does not parse becomes NaN. The result holds numbers and NaN only. (\<^verbatim>\<open>read_csv\<close> yields
  no timestamp, so the \<open>Date\<close> case is never reached from a loaded file.)
\<close>

fun to_numeric_cell :: "('n, 'd) pandas \<Rightarrow> ('n, 'd) cell \<Rightarrow> ('n, 'd) cell" where
  "to_numeric_cell pd (Num n) = Num n"
| "to_numeric_cell pd (Str s) = (case numeric_of_text pd s of Some n \<Rightarrow> Num n | None \<Rightarrow> NaN)"
| "to_numeric_cell pd NaN = NaN"
| "to_numeric_cell pd (Date d) = NaN"

definition to_numeric :: "('n, 'd) pandas \<Rightarrow> ('n, 'd) cell list \<Rightarrow> ('n, 'd) cell list" where
  "to_numeric pd col = map (to_numeric_cell pd) col"

text \<open>
  \<^verbatim>\<open>pd.to_datetime(series, errors='coerce')\<close>: the result holds timestamps and NaT only.
\<close>

fun to_datetime_cell :: "('n, 'd) pandas \<Rightarrow> ('n, 'd) cell \<Rightarrow> ('n, 'd) cell" where
  "to_datetime_cell pd (Date d) = Date d"
| "to_datetime_cell pd (Str s) = (case datetime_of_text pd s of Some d \<Rightarrow> Date d | None \<Rightarrow> NaN)"
| "to_datetime_cell pd (Num n) = (case datetime_of_number pd n of Some d \<Rightarrow> Date d | None \<Rightarrow> NaN)"
| "to_datetime_cell pd NaN = NaN"

definition to_datetime :: "('n, 'd) pandas \<Rightarrow> ('n, 'd) cell list \<Rightarrow> ('n, 'd) cell list" where
  "to_datetime pd col = map (to_datetime_cell pd) col"

definition numeric_columns :: "string list" where
  "numeric_columns = [''Price Per Unit'', ''Quantity'', ''Total Spent'']"

text \<open>The loop of lines 45-46.\<close>

fun numeric_loop :: "('n, 'd) pandas \<Rightarrow> string list \<Rightarrow> ('n, 'd) dataframe \<Rightarrow> py_error + ('n, 'd) dataframe" where
  "numeric_loop pd [] df = Inr df"
| "numeric_loop pd (c # cs) df =
     (case get_column c df of
        Inl e \<Rightarrow> Inl e
      | Inr col \<Rightarrow> numeric_loop pd cs (set_column c (to_numeric pd col) df))"

definition adjust_types :: "('n, 'd) pandas \<Rightarrow> ('n, 'd) dataframe \<Rightarrow> py_error + ('n, 'd) dataframe" where
  "adjust_types pd df =
     (case numeric_loop pd numeric_columns df of
        Inl e \<Rightarrow> Inl e
      | Inr df1 \<Rightarrow>
          (case get_column ''Transaction Date'' df1 of
             Inl e \<Rightarrow> Inl e
           | Inr col \<Rightarrow> Inr (set_column ''Transaction Date'' (to_datetime pd col) df1)))"

section \<open>Step 2: standardizing errors (lines 51-55)\<close>

definition values_to_treat_as_null :: "string list" where
  "values_to_treat_as_null = ['''', '' '', ''UNKNOWN'', ''ERROR'']"

text \<open>
  \<^verbatim>\<open>df.replace(values_to_treat_as_null, np.nan)\<close>, cell by cell: a text equal to one of the
  listed values becomes NaN; a number or a timestamp equals no text.
\<close>

fun replace_cell :: "string list \<Rightarrow> ('n, 'd) cell \<Rightarrow> ('n, 'd) cell" where
  "replace_cell vs (Str s) = (if s \<in> set vs then NaN else Str s)"
| "replace_cell vs c = c"

definition replace_values :: "string list \<Rightarrow> ('n, 'd) dataframe \<Rightarrow> ('n, 'd) dataframe" where
  "replace_values vs df =
     df\<lparr>rows := map (\<lambda>r c. if c \<in> set (columns df) then replace_cell vs (r c) else r c) (rows df)\<rparr>"

section \<open>Step 3: essential and contextual columns (lines 57-73)\<close>

definition essential_columns :: "string list" where
  "essential_columns = [''Transaction Date'', ''Price Per Unit'', ''Quantity'', ''Item'']"

definition contextual_columns :: "string list" where
  "contextual_columns = [''Location'', ''Payment Method'']"

text \<open>
  \<^verbatim>\<open>df.dropna(subset=...)\<close>: KeyError with the labels of the subset that the header lacks;
  otherwise the rows with no NaN in the subset, in order.
\<close>

definition dropna :: "string list \<Rightarrow> ('n, 'd) dataframe \<Rightarrow> py_error + ('n, 'd) dataframe" where
  "dropna labels df =
     (let missing = filter (\<lambda>c. c \<notin> set (columns df)) labels
      in if missing \<noteq> [] then Inl (KeyError (Labels missing))
         else Inr (df\<lparr>rows := filter (\<lambda>r. list_all (\<lambda>c. r c \<noteq> NaN) labels) (rows df)\<rparr>))"

text \<open>
  \<^verbatim>\<open>Series.mode()\<close> (\<^verbatim>\<open>dropna=True\<close>): the values that occur most often among the
  non-missing ones, collected in order of first appearance and then sorted ascending by
  \<^verbatim>\<open>np.sort\<close>. Values that cannot be compared with each other (a TypeError of the sort,
  which pandas turns into a warning) stay in order of first appearance.
\<close>

fun unique :: "'a list \<Rightarrow> 'a list \<Rightarrow> 'a list" where
  "unique seen [] = []"
| "unique seen (x # xs) = (if x \<in> set seen then unique seen xs else x # unique (x # seen) xs)"

definition most_frequent :: "'a list \<Rightarrow> 'a list" where
  "most_frequent xs =
     (let top = fold max (map (count_list xs) xs) 0
      in filter (\<lambda>k. count_list xs k = top) (unique [] xs))"

fun texts_of :: "('n, 'd) cell list \<Rightarrow> string list option" where
  "texts_of [] = Some []"
| "texts_of (Str s # cs) = map_option (Cons s) (texts_of cs)"
| "texts_of (c # cs) = None"

fun numbers_of :: "('n, 'd) cell list \<Rightarrow> 'n list option" where
  "numbers_of [] = Some []"
| "numbers_of (Num n # cs) = map_option (Cons n) (numbers_of cs)"
| "numbers_of (c # cs) = None"

fun dates_of :: "('n, 'd) cell list \<Rightarrow> 'd list option" where
  "dates_of [] = Some []"
| "dates_of (Date d # cs) = map_option (Cons d) (dates_of cs)"
| "dates_of (c # cs) = None"

definition np_sort :: "('n::linorder, 'd::linorder) cell list \<Rightarrow> ('n, 'd) cell list" where
  "np_sort cs =
     (case texts_of cs of
        Some ss \<Rightarrow> map Str (sort ss)
      | None \<Rightarrow>
          (case numbers_of cs of
             Some ns \<Rightarrow> map Num (sort ns)
           | None \<Rightarrow>
               (case dates_of cs of
                  Some ds \<Rightarrow> map Date (sort ds)
                | None \<Rightarrow> cs)))"

definition mode :: "('n::linorder, 'd::linorder) cell list \<Rightarrow> ('n, 'd) cell list" where
  "mode col = np_sort (most_frequent (filter (\<lambda>v. v \<noteq> NaN) col))"

text \<open>\<^verbatim>\<open>series[0]\<close> on the result of \<^verbatim>\<open>mode()\<close>: KeyError 0 when the result is empty.\<close>

definition first_item :: "'a list \<Rightarrow> py_error + 'a" where
  "first_item xs = (case xs of [] \<Rightarrow> Inl (KeyError (Position 0)) | x # _ \<Rightarrow> Inr x)"

fun fillna_cell :: "('n, 'd) cell \<Rightarrow> ('n, 'd) cell \<Rightarrow> ('n, 'd) cell" where
  "fillna_cell m NaN = m"
| "fillna_cell m c = c"

definition fillna :: "('n, 'd) cell \<Rightarrow> ('n, 'd) cell list \<Rightarrow> ('n, 'd) cell list" where
  "fillna m col = map (fillna_cell m) col"

text \<open>
  What the script prints, one constructor per \<^verbatim>\<open>print\<close> (the wording is not modelled,
  the values shown are).
\<close>

datatype ('n, 'd) message =
    FileLoaded string
  | FileNotFound string
  | AdjustingTypes
  | TypesAdjusted
  | StandardizingValues
  | ValuesStandardized
  | CorrectingErrors
  | RowsRemoved nat
  | ModeFilled string "('n, 'd) cell"
  | TotalRecalculated
  | CheckingDuplicates
  | DuplicatesRemoved nat
  | NoDuplicates
  | CleaningCompleted
  | RowCount nat
  | FileSaved string
  | SaveError py_error

text \<open>
  The loop of lines 70-73. It stops at the first exception and keeps what was printed
  before it.
\<close>

fun fill_loop ::
  "string list \<Rightarrow> ('n, 'd) message list \<Rightarrow> ('n::linorder, 'd::linorder) dataframe \<Rightarrow>
   ('n, 'd) message list \<times> (py_error + ('n, 'd) dataframe)" where
  "fill_loop [] ms df = (ms, Inr df)"
| "fill_loop (c # cs) ms df =
     (case get_column c df of
        Inl e \<Rightarrow> (ms, Inl e)
      | Inr col \<Rightarrow>
          (case first_item (mode col) of
             Inl e \<Rightarrow> (ms, Inl e)
           | Inr m \<Rightarrow> fill_loop cs (ms @ [ModeFilled c m]) (set_column c (fillna m col) df)))"

section \<open>Recalculating the total (lines 75-77)\<close>

text \<open>
  The product of two numeric series, element by element: NaN where an operand is NaN, and
  NaN where the product of two numbers is NaN (\<^verbatim>\<open>inf * 0\<close>). Both operands are results of
  \<open>to_numeric\<close>, so they hold numbers and NaN only.
\<close>

fun mul_cell :: "('n, 'd) pandas \<Rightarrow> ('n, 'd) cell \<Rightarrow> ('n, 'd) cell \<Rightarrow> ('n, 'd) cell" where
  "mul_cell pd (Num a) (Num b) = (case multiply pd a b of Some c \<Rightarrow> Num c | None \<Rightarrow> NaN)"
| "mul_cell pd x y = NaN"

definition recalculate_total ::
  "('n, 'd) pandas \<Rightarrow> ('n, 'd) dataframe \<Rightarrow> py_error + ('n, 'd) dataframe" where
  "recalculate_total pd df =
     (case get_column ''Quantity'' df of
        Inl e \<Rightarrow> Inl e
      | Inr q \<Rightarrow>
          (case get_column ''Price Per Unit'' df of
             Inl e \<Rightarrow> Inl e
           | Inr p \<Rightarrow> Inr (set_column ''Total Spent'' (map2 (mul_cell pd) q p) df)))"

section \<open>Step 4: duplicates (lines 79-86)\<close>

text \<open>
  \<^verbatim>\<open>df.duplicated()\<close>: one flag per row, True when the row's tuple over all columns of the
  header has occurred in an earlier row (NaN in the same column counts as equal).
\<close>

fun duplicated_from :: "'a list \<Rightarrow> 'a list \<Rightarrow> bool list" where
  "duplicated_from seen [] = []"
| "duplicated_from seen (x # xs) = (x \<in> set seen) # duplicated_from (x # seen) xs"

definition duplicated :: "('n, 'd) dataframe \<Rightarrow> bool list" where
  "duplicated df = duplicated_from [] (df_values df)"

text \<open>\<^verbatim>\<open>df.drop_duplicates()\<close> keeps the rows that are not flagged (\<^verbatim>\<open>keep='first'\<close>).\<close>

definition drop_duplicates :: "('n, 'd) dataframe \<Rightarrow> ('n, 'd) dataframe" where
  "drop_duplicates df = df\<lparr>rows := map fst (filter (\<lambda>(r, d). \<not> d) (zip (rows df) (duplicated df)))\<rparr>"

section \<open>The whole run\<close>

text \<open>
  The files are the run's surroundings: what \<^verbatim>\<open>pd.read_csv\<close> gives for a path (a
  DataFrame or the exception it raises) and the exception, if any, that \<^verbatim>\<open>to_csv\<close> raises
  for a path and a table.
\<close>

record ('n, 'd) world =
  read_csv :: "string \<Rightarrow> py_error + ('n, 'd) dataframe"
  to_csv :: "string \<Rightarrow> ('n, 'd) dataframe \<Rightarrow> py_error option"

text \<open>
  What a run leaves behind: the lines printed, the exception that left \<^verbatim>\<open>clean_data\<close>
  uncaught (if any), and the call of \<^verbatim>\<open>to_csv\<close> (path and table) if the run reached it.
\<close>

record ('n, 'd) outcome =
  printed :: "('n, 'd) message list"
  raised :: "py_error option"
  to_csv_call :: "(string \<times> ('n, 'd) dataframe) option"

definition uncaught :: "('n, 'd) message list \<Rightarrow> py_error \<Rightarrow> ('n, 'd) outcome" where
  "uncaught ms e = \<lparr>printed = ms, raised = Some e, to_csv_call = None\<rparr>"

text \<open>Lines 79-97: duplicates, final report, saving.\<close>

definition finish ::
  "('n, 'd) world \<Rightarrow> string \<Rightarrow> ('n, 'd) message list \<Rightarrow> ('n, 'd) dataframe \<Rightarrow> ('n, 'd) outcome" where
  "finish w output_file ms df =
     (let num_duplicates = length (filter id (duplicated df));
          df' = (if num_duplicates > 0 then drop_duplicates df else df);
          ms' = ms @ [CheckingDuplicates]
                @ (if num_duplicates > 0 then [DuplicatesRemoved num_duplicates] else [NoDuplicates])
                @ [CleaningCompleted, RowCount (length (rows df'))]
      in case to_csv w output_file df' of
           None \<Rightarrow> \<lparr>printed = ms' @ [FileSaved output_file], raised = None,
                     to_csv_call = Some (output_file, df')\<rparr>
         | Some e \<Rightarrow> \<lparr>printed = ms' @ [SaveError e], raised = None,
                       to_csv_call = Some (output_file, df')\<rparr>)"

text \<open>
  Lines 39-77 on a loaded table: what is printed, and the table before the duplicates
  are looked for, or the exception that ended the run.
\<close>

definition repair ::
  "('n::linorder, 'd::linorder) pandas \<Rightarrow> string \<Rightarrow> ('n, 'd) dataframe \<Rightarrow>
   ('n, 'd) message list \<times> (py_error + ('n, 'd) dataframe)" where
  "repair pd input_file df =
     (let ms1 = [FileLoaded input_file, AdjustingTypes]
      in case adjust_types pd df of
           Inl e \<Rightarrow> (ms1, Inl e)
         | Inr df1 \<Rightarrow>
             (let ms2 = ms1 @ [TypesAdjusted, StandardizingValues];
                  df2 = replace_values values_to_treat_as_null df1;
                  ms3 = ms2 @ [ValuesStandardized, CorrectingErrors];
                  initial_rows = length (rows df2)
              in case dropna essential_columns df2 of
                   Inl e \<Rightarrow> (ms3, Inl e)
                 | Inr df3 \<Rightarrow>
                     (let ms4 = ms3 @ [RowsRemoved (initial_rows - length (rows df3))]
                      in case fill_loop contextual_columns ms4 df3 of
                           (ms5, Inl e) \<Rightarrow> (ms5, Inl e)
                         | (ms5, Inr df4) \<Rightarrow>
                             (case recalculate_total pd df4 of
                                Inl e \<Rightarrow> (ms5, Inl e)
                              | Inr df5 \<Rightarrow> (ms5 @ [TotalRecalculated], Inr df5)))))"

text \<open>
  \<^verbatim>\<open>clean_data(input_file, output_file)\<close>. Only \<^verbatim>\<open>FileNotFoundError\<close> is caught at the
  load; the function then prints and returns. Any other exception leaves the function.
\<close>

definition clean_data ::
  "('n::linorder, 'd::linorder) pandas \<Rightarrow> ('n, 'd) world \<Rightarrow> string \<Rightarrow> string \<Rightarrow>
   ('n, 'd) outcome" where
  "clean_data pd w input_file output_file =
     (case read_csv w input_file of
        Inl e \<Rightarrow>
          (if e = FileNotFoundError
           then \<lparr>printed = [FileNotFound input_file], raised = None, to_csv_call = None\<rparr>
           else uncaught [] e)
      | Inr df \<Rightarrow>
          (case repair pd input_file df of
             (ms, Inl e) \<Rightarrow> uncaught ms e
           | (ms, Inr df5) \<Rightarrow> finish w output_file ms df5))"

text \<open>The table as it stands after line 66 (types adjusted, values standardized, rows dropped).\<close>

definition after_drop :: "('n, 'd) pandas \<Rightarrow> ('n, 'd) dataframe \<Rightarrow> py_error + ('n, 'd) dataframe" where
  "after_drop pd df =
     (case adjust_types pd df of
        Inl e \<Rightarrow> Inl e
      | Inr df1 \<Rightarrow> dropna essential_columns (replace_values values_to_treat_as_null df1))"

section \<open>The tie-break the specification describes\<close>

text \<open>
  Not from the source, but from the specification's words, to compare with \<open>mode\<close>: among
  the non-missing values of the column, in the column's order, the first one that no other
  value outnumbers.
\<close>

definition first_encountered_mode :: "('n, 'd) cell list \<Rightarrow> ('n, 'd) cell option" where
  "first_encountered_mode col =
     (let vs = filter (\<lambda>v. v \<noteq> NaN) col
      in find (\<lambda>v. list_all (\<lambda>u. count_list vs u \<le> count_list vs v) vs) vs)"

section \<open>Example tables\<close>

text \<open>
  Small loaded tables on which the theorems below are run. Numbers are rationals, a
  timestamp is written as its text. \<open>row_of\<close> builds a row from the header and a tuple.
\<close>

definition row_of :: "string list \<Rightarrow> ('n, 'd) cell list \<Rightarrow> ('n, 'd) row" where
  "row_of cols vs = (\<lambda>c. case map_of (zip cols vs) c of Some v \<Rightarrow> v | None \<Rightarrow> NaN)"

definition cafe_pandas :: "(rat, string) pandas" where
  "cafe_pandas =
     \<lparr>numeric_of_text = map_of [(''1'', 1), (''2'', 2), (''3'', 3), (''3.5'', 7 / 2), (''7.0'', 7)],
      datetime_of_text = (\<lambda>s. if s \<in> set [''2023-01-01'', ''2023-01-02''] then Some s else None),
      datetime_of_number = (\<lambda>n. None),
      multiply = (\<lambda>a b. Some (a * b))\<rparr>"

definition cafe_header :: "string list" where
  "cafe_header = [''Transaction ID'', ''Item'', ''Quantity'', ''Price Per Unit'', ''Total Spent'',
                  ''Payment Method'', ''Location'', ''Transaction Date'']"

definition dirty_sales :: "(rat, string) dataframe" where
  "dirty_sales = \<lparr>columns = cafe_header, rows = map (row_of cafe_header)
     [[Str ''TXN_1'', Str ''Coffee'', Str ''2'', Str ''3.5'', Str ''ERROR'', Str ''Cash'', Str ''UNKNOWN'', Str ''2023-01-01''],
      [Str ''TXN_2'', NaN, Str ''1'', Str ''3'', Str ''3'', Str ''Cash'', Str ''In-store'', Str ''2023-01-01''],
      [Str ''TXN_3'', Str ''Tea'', Str ''1'', Str ''free'', Str ''2'', Str ''Card'', Str ''Takeaway'', Str ''2023-01-02''],
      [Str ''TXN_4'', Str ''Cake'', Str ''3'', Str ''3'', Str ''7.0'', Str ''Cash'', Str ''In-store'', Str ''2023-01-02''],
      [Str ''TXN_4'', Str ''Cake'', Str ''3'', Str ''3'', NaN, Str ''Cash'', Str ''In-store'', Str ''2023-01-02''],
      [Str ''TXN_6'', Str ''Tea'', Str ''1'', Str ''2'', Str ''2'', Str ''ERROR'', Str ''Takeaway'', Str ''2023-01-02''],
      [Str ''TXN_7'', Str ''Juice'', Str ''2'', Str ''3'', Str ''UNKNOWN'', Str ''Card'', Str ''In-store'', Str ''2023-01-01'']]\<rparr>"

definition tie_sales :: "(rat, string) dataframe" where
  "tie_sales = \<lparr>columns = cafe_header, rows = map (row_of cafe_header)
     [[Str ''TXN_1'', Str ''Coffee'', Num 2, Num 3, Num 6, Str ''Cash'', Str ''Takeaway'', Str ''2023-01-01''],
      [Str ''TXN_2'', Str ''Tea'', Num 1, Num 2, Num 2, Str ''Cash'', Str ''In-store'', Str ''2023-01-01''],
      [Str ''TXN_3'', Str ''Cake'', Num 1, Num 3, Num 3, Str ''Card'', NaN, Str ''2023-01-02'']]\<rparr>"

definition no_location_sales :: "(rat, string) dataframe" where
  "no_location_sales = \<lparr>columns = cafe_header, rows = map (row_of cafe_header)
     [[Str ''TXN_1'', Str ''Coffee'', Num 2, Num 3, Num 6, Str ''Cash'', Str ''UNKNOWN'', Str ''2023-01-01''],
      [Str ''TXN_2'', Str ''Tea'', Num 1, Num 2, Num 2, Str ''Card'', NaN, Str ''2023-01-02'']]\<rparr>"

definition short_header :: "string list" where
  "short_header = [''Transaction ID'', ''Item'', ''Quantity'', ''Price Per Unit'', ''Total Spent'',
                   ''Location'', ''Transaction Date'']"

definition short_sales :: "(rat, string) dataframe" where
  "short_sales = \<lparr>columns = short_header, rows = map (row_of short_header)
     [[Str ''TXN_1'', Str ''Coffee'', Num 2, Num 3, Num 6, Str ''Takeaway'', Str ''2023-01-01'']]\<rparr>"

text \<open>
  Like \<open>short_sales\<close>, without the Payment Method column, and with no Location value
  either.
\<close>

definition short_no_location_sales :: "(rat, string) dataframe" where
  "short_no_location_sales = \<lparr>columns = short_header, rows = map (row_of short_header)
     [[Str ''TXN_1'', Str ''Coffee'', Num 2, Num 3, Num 6, Str ''UNKNOWN'', Str ''2023-01-01'']]\<rparr>"


definition cafe_world :: "(rat, string) world" where
  "cafe_world =
     \<lparr>read_csv = (\<lambda>p. if p = ''dirty.csv'' then Inr dirty_sales
                      else if p = ''tie.csv'' then Inr tie_sales
                      else if p = ''no_location.csv'' then Inr no_location_sales
                      else if p = ''short.csv'' then Inr short_sales
                      else if p = ''short_no_location.csv'' then Inr short_no_location_sales
                      else if p = ''locked.csv'' then Inl PermissionError
                      else Inl FileNotFoundError),
      to_csv = (\<lambda>p d. None)\<rparr>"

text \<open>
  A float column can hold an infinity (\<^verbatim>\<open>read_csv\<close> and \<^verbatim>\<open>to_numeric\<close> read the text
  \<^verbatim>\<open>inf\<close> as one, and \<^verbatim>\<open>dropna\<close> does not count it as missing). The example numbers are
  the naturals with \<open>\<infinity>\<close>, and the product of \<open>\<infinity>\<close> and \<open>0\<close> is NaN.
\<close>

definition float_pandas :: "(enat, string) pandas" where
  "float_pandas =
     \<lparr>numeric_of_text = map_of [(''0'', 0), (''2'', 2), (''3'', 3), (''inf'', \<infinity>)],
      datetime_of_text = (\<lambda>s. if s \<in> set [''2023-01-01'', ''2023-01-02''] then Some s else None),
      datetime_of_number = (\<lambda>n. None),
      multiply = (\<lambda>a b. if (a = \<infinity> \<and> b = 0) \<or> (a = 0 \<and> b = \<infinity>) then None else Some (a * b))\<rparr>"

definition inf_sales :: "(enat, string) dataframe" where
  "inf_sales = \<lparr>columns = cafe_header, rows = map (row_of cafe_header)
     [[Str ''TXN_1'', Str ''Coffee'', Num \<infinity>, Num 0, Num 0, Str ''Cash'', Str ''In-store'', Str ''2023-01-01''],
      [Str ''TXN_2'', Str ''Tea'', Num 2, Num 3, Num 0, Str ''Cash'', Str ''In-store'', Str ''2023-01-02'']]\<rparr>"

definition float_world :: "(enat, string) world" where
  "float_world =
     \<lparr>read_csv = (\<lambda>p. if p = ''inf.csv'' then Inr inf_sales else Inl FileNotFoundError),
      to_csv = (\<lambda>p d. None)\<rparr>"


section \<open>Reading a written table back\<close>


section \<open>Columns and coercions\<close>

lemma zip_map_self:
  "map (\<lambda>(r, v). r(c := v)) (zip rs (map g rs)) = map (\<lambda>r. r(c := g r)) rs"
  by (induction rs) auto

lemma set_column_update:
  assumes "c \<in> set (columns df)"
  shows "set_column c (map f (map (\<lambda>r. r c) (rows df))) df
         = df\<lparr>rows := map (\<lambda>r. r(c := f (r c))) (rows df)\<rparr>"
proof -
  have "map (\<lambda>(r, v). r(c := v)) (zip (rows df) (map (\<lambda>r. f (r c)) (rows df)))
        = map (\<lambda>r. r(c := f (r c))) (rows df)"
    by (rule zip_map_self)
  then show ?thesis using assms by (simp add: set_column_def o_def)
qed

lemma to_numeric_cell_idem: "to_numeric_cell pd (to_numeric_cell pd c) = to_numeric_cell pd c"
  by (cases c) (auto split: option.splits)

lemma numeric_loop_eq:
  "numeric_loop pd cs df =
     (case find (\<lambda>c. c \<notin> set (columns df)) cs of
        Some c \<Rightarrow> Inl (KeyError (Label c))
      | None \<Rightarrow> Inr (df\<lparr>rows := map (\<lambda>r c. if c \<in> set cs then to_numeric_cell pd (r c) else r c) (rows df)\<rparr>))"
proof (induction cs arbitrary: df)
  case Nil
  then show ?case by simp
next
  case (Cons c cs)
  show ?case
  proof (cases "c \<in> set (columns df)")
    case False
    then show ?thesis by (simp add: get_column_def)
  next
    case True
    let ?df' = "df\<lparr>rows := map (\<lambda>r. r(c := to_numeric_cell pd (r c))) (rows df)\<rparr>"
    have step: "numeric_loop pd (c # cs) df = numeric_loop pd cs ?df'"
      using True set_column_update [OF True, of "to_numeric_cell pd"]
      by (simp add: get_column_def to_numeric_def)
    have rows_eq: "map ((\<lambda>r c'. if c' \<in> set cs then to_numeric_cell pd (r c') else r c') \<circ> (\<lambda>r. r(c := to_numeric_cell pd (r c)))) (rows df)
          = map (\<lambda>r c'. if c' \<in> set (c # cs) then to_numeric_cell pd (r c') else r c') (rows df)"
      by (rule map_cong) (auto simp: fun_eq_iff to_numeric_cell_idem)
    show ?thesis
      unfolding step Cons.IH using True rows_eq by (simp split: option.splits)
  qed
qed

lemma find_append:
  "find P (xs @ ys) = (case find P xs of Some x \<Rightarrow> Some x | None \<Rightarrow> find P ys)"
  by (induction xs) auto

lemma adjust_types_eq:
  "adjust_types pd df =
     (case find (\<lambda>c. c \<notin> set (columns df)) (numeric_columns @ [''Transaction Date'']) of
        Some c \<Rightarrow> Inl (KeyError (Label c))
      | None \<Rightarrow> Inr (df\<lparr>rows := map (\<lambda>r c. if c \<in> set numeric_columns then to_numeric_cell pd (r c)
                                           else if c = ''Transaction Date'' then to_datetime_cell pd (r c)
                                           else r c) (rows df)\<rparr>))"
proof (cases "find (\<lambda>c. c \<notin> set (columns df)) numeric_columns")
  case (Some c)
  then show ?thesis
    by (simp add: adjust_types_def numeric_loop_eq find_append)
next
  case None
  let ?df1 = "df\<lparr>rows := map (\<lambda>r c. if c \<in> set numeric_columns then to_numeric_cell pd (r c) else r c) (rows df)\<rparr>"
  have loop: "numeric_loop pd numeric_columns df = Inr ?df1"
    using None by (simp add: numeric_loop_eq)
  show ?thesis
  proof (cases "''Transaction Date'' \<in> set (columns df)")
    case False
    then show ?thesis using None
      by (simp add: adjust_types_def loop get_column_def find_append)
  next
    case True
    then have c1: "''Transaction Date'' \<in> set (columns ?df1)" by simp
    have rows_eq: "map ((\<lambda>r. r(''Transaction Date'' := to_datetime_cell pd (r ''Transaction Date''))) \<circ>
                 (\<lambda>r c. if c \<in> set numeric_columns then to_numeric_cell pd (r c) else r c)) (rows df)
          = map (\<lambda>r c. if c \<in> set numeric_columns then to_numeric_cell pd (r c)
                        else if c = ''Transaction Date'' then to_datetime_cell pd (r c)
                        else r c) (rows df)"
      by (rule map_cong) (auto simp: fun_eq_iff numeric_columns_def)
    show ?thesis
      using True None set_column_update [OF c1, of "to_datetime_cell pd"] rows_eq
      by (simp add: adjust_types_def loop get_column_def find_append to_datetime_def)
  qed
qed

lemma dropna_eq:
  "dropna labels df =
     (if set labels \<subseteq> set (columns df)
      then Inr (df\<lparr>rows := filter (\<lambda>r. \<forall>c\<in>set labels. r c \<noteq> NaN) (rows df)\<rparr>)
      else Inl (KeyError (Labels (filter (\<lambda>c. c \<notin> set (columns df)) labels))))"
  by (auto simp: dropna_def Let_def filter_empty_conv list_all_iff)

section \<open>The mode\<close>

lemma fold_max_ge: "(a::nat) \<le> fold max ns a \<and> (\<forall>n\<in>set ns. n \<le> fold max ns a)"
proof (induction ns arbitrary: a)
  case Nil
  show ?case by simp
next
  case (Cons n ns)
  from Cons.IH [of "max n a"] show ?case by auto
qed

lemma fold_max_mem: "fold max ns (a::nat) = a \<or> fold max ns a \<in> set ns"
proof (induction ns arbitrary: a)
  case Nil
  show ?case by simp
next
  case (Cons n ns)
  from Cons.IH [of "max n a"] show ?case by (auto simp: max_def split: if_splits)
qed

lemma set_unique: "set (unique seen xs) = set xs - set seen"
  by (induction xs arbitrary: seen) auto

lemma distinct_unique: "distinct (unique seen xs)"
  by (induction xs arbitrary: seen) (auto simp: set_unique)

lemma count_list_pos: "x \<in> set xs \<Longrightarrow> 0 < count_list xs x"
  by (induction xs) auto

lemma set_most_frequent:
  "set (most_frequent xs) = {k \<in> set xs. \<forall>x\<in>set xs. count_list xs x \<le> count_list xs k}"
proof (cases "xs = []")
  case True
  then show ?thesis by (simp add: most_frequent_def)
next
  case False
  let ?cs = "map (count_list xs) xs"
  let ?top = "fold max ?cs 0"
  from False obtain y where y: "y \<in> set xs" by (cases xs) auto
  have ge: "\<forall>x\<in>set xs. count_list xs x \<le> ?top"
    using fold_max_ge [of 0 ?cs] by simp
  have "0 < ?top" using ge y count_list_pos [OF y] by force
  with fold_max_mem [of ?cs 0] have "?top \<in> set ?cs" by auto
  then obtain z where z: "z \<in> set xs" "count_list xs z = ?top" by auto
  have "set (most_frequent xs) = {k \<in> set xs. count_list xs k = ?top}"
    by (auto simp: most_frequent_def Let_def set_unique)
  also have "\<dots> = {k \<in> set xs. \<forall>x\<in>set xs. count_list xs x \<le> count_list xs k}"
    using ge z by (auto intro: antisym) (metis antisym)
  finally show ?thesis .
qed

lemma most_frequent_empty: "most_frequent xs = [] \<longleftrightarrow> xs = []"
proof
  assume e: "most_frequent xs = []"
  show "xs = []"
  proof (rule ccontr)
    assume ne: "xs \<noteq> []"
    let ?cs = "map (count_list xs) xs"
    let ?top = "fold max ?cs 0"
    from ne obtain y where y: "y \<in> set xs" by (cases xs) auto
    have ge: "\<forall>x\<in>set xs. count_list xs x \<le> ?top"
      using fold_max_ge [of 0 ?cs] by simp
    have "0 < ?top" using ge y count_list_pos [OF y] by force
    with fold_max_mem [of ?cs 0] have "?top \<in> set ?cs" by auto
    then obtain z where z: "z \<in> set xs" "count_list xs z = ?top" by auto
    with ge have "z \<in> set (most_frequent xs)" by (simp add: set_most_frequent)
    with e show False by simp
  qed
qed (simp add: most_frequent_def)

lemma texts_of_Some: "texts_of cs = Some ss \<Longrightarrow> cs = map Str ss"
  by (induction cs arbitrary: ss rule: texts_of.induct) auto

lemma texts_of_all: "(\<forall>c\<in>set cs. \<exists>s. c = Str s) \<Longrightarrow> \<exists>ss. texts_of cs = Some ss"
  by (induction cs rule: texts_of.induct) auto

lemma numbers_of_Some: "numbers_of cs = Some ns \<Longrightarrow> cs = map Num ns"
  by (induction cs arbitrary: ns rule: numbers_of.induct) auto

lemma dates_of_Some: "dates_of cs = Some ds \<Longrightarrow> cs = map Date ds"
  by (induction cs arbitrary: ds rule: dates_of.induct) auto

lemma set_np_sort: "set (np_sort cs) = set cs"
proof (cases "texts_of cs")
  case (Some ss)
  then show ?thesis using texts_of_Some [OF Some] by (simp add: np_sort_def)
next
  case t: None
  show ?thesis
  proof (cases "numbers_of cs")
    case (Some ns)
    then show ?thesis using t numbers_of_Some [OF Some] by (simp add: np_sort_def)
  next
    case n: None
    show ?thesis
    proof (cases "dates_of cs")
      case (Some ds)
      then show ?thesis using t n dates_of_Some [OF Some] by (simp add: np_sort_def)
    next
      case None
      then show ?thesis using t n by (simp add: np_sort_def)
    qed
  qed
qed

lemma np_sort_empty: "np_sort cs = [] \<longleftrightarrow> cs = []"
  using set_np_sort [of cs] by (metis set_empty)

lemma hd_sort_le:
  fixes xs :: "'a::linorder list"
  assumes "x \<in> set xs"
  shows "hd (sort xs) \<le> x"
proof -
  have s: "sorted (sort xs)" and m: "x \<in> set (sort xs)" using assms by simp_all
  then show ?thesis by (cases "sort xs") auto
qed

lemma np_sort_texts:
  assumes "\<forall>c\<in>set cs. \<exists>s. c = Str s" and "cs \<noteq> []"
  shows "\<exists>s. hd (np_sort cs) = Str s \<and> (\<forall>s'. Str s' \<in> set cs \<longrightarrow> s \<le> s')"
proof -
  from texts_of_all [OF assms(1)] obtain ss where ss: "texts_of cs = Some ss" by blast
  then have cs: "cs = map Str ss" by (rule texts_of_Some)
  with assms(2) have ne: "sort ss \<noteq> []" by (metis list.map_disc_iff set_empty set_sort)
  have "hd (np_sort cs) = Str (hd (sort ss))"
    using ss ne by (simp add: np_sort_def hd_map)
  moreover have "\<forall>s'. Str s' \<in> set cs \<longrightarrow> hd (sort ss) \<le> s'"
    using cs by (auto intro: hd_sort_le)
  ultimately show ?thesis by blast
qed

lemma count_list_filter:
  "count_list (filter P xs) v = (if P v then count_list xs v else 0)"
  by (induction xs) auto

lemma first_item_mode:
  "first_item (mode col) =
     (if \<forall>v\<in>set col. v = NaN then Inl (KeyError (Position 0)) else Inr (hd (mode col)))"
proof -
  have "mode col = [] \<longleftrightarrow> (\<forall>v\<in>set col. v = NaN)"
    by (simp add: mode_def np_sort_empty most_frequent_empty filter_empty_conv)
  then show ?thesis by (cases "mode col") (auto simp: first_item_def)
qed

lemma set_mode:
  "set (mode col) =
     {m \<in> set col. m \<noteq> NaN \<and> (\<forall>v\<in>set col. v \<noteq> NaN \<longrightarrow> count_list col v \<le> count_list col m)}"
  by (auto simp: mode_def set_np_sort set_most_frequent count_list_filter)

lemma hd_mode:
  assumes "\<exists>v\<in>set col. v \<noteq> NaN"
  shows "hd (mode col) \<in> set col \<and> hd (mode col) \<noteq> NaN \<and>
         (\<forall>v\<in>set col. v \<noteq> NaN \<longrightarrow> count_list col v \<le> count_list col (hd (mode col)))"
proof -
  have "mode col \<noteq> []"
    using assms by (simp add: mode_def np_sort_empty most_frequent_empty filter_empty_conv)
  then have "hd (mode col) \<in> set (mode col)" by simp
  then show ?thesis unfolding set_mode by blast
qed

lemma hd_mode_text:
  assumes ex: "\<exists>v\<in>set col. v \<noteq> NaN"
    and txt_only: "\<forall>v\<in>set col. v \<noteq> NaN \<longrightarrow> (\<exists>s. v = Str s)"
  shows "\<exists>s. hd (mode col) = Str s \<and>
           (\<forall>s'. Str s' \<in> set col \<and> count_list col (Str s) \<le> count_list col (Str s') \<longrightarrow> s \<le> s')"
proof -
  let ?ms = "most_frequent (filter (\<lambda>v. v \<noteq> NaN) col)"
  have ne: "?ms \<noteq> []"
    using ex by (simp add: most_frequent_empty filter_empty_conv)
  have all: "\<forall>c\<in>set ?ms. \<exists>s. c = Str s"
    using txt_only by (auto simp: set_most_frequent)
  from np_sort_texts [OF all ne] obtain s where
    s: "hd (mode col) = Str s" and le: "\<forall>s'. Str s' \<in> set ?ms \<longrightarrow> s \<le> s'"
    by (auto simp: mode_def)
  have top: "\<forall>v\<in>set col. v \<noteq> NaN \<longrightarrow> count_list col v \<le> count_list col (Str s)"
    using hd_mode [OF ex] s by simp
  have "s \<le> s'" if "Str s' \<in> set col" "count_list col (Str s) \<le> count_list col (Str s')" for s'
  proof -
    have "Str s' \<in> set ?ms"
      using that top by (auto simp: set_most_frequent count_list_filter intro: order_trans)
    with le show ?thesis by blast
  qed
  with s show ?thesis by blast
qed

lemma fill_loop_step:
  "fill_loop (c # cs) ms df =
     (if c \<notin> set (columns df) then (ms, Inl (KeyError (Label c)))
      else if \<forall>r\<in>set (rows df). r c = NaN then (ms, Inl (KeyError (Position 0)))
      else fill_loop cs (ms @ [ModeFilled c (hd (mode (map (\<lambda>r. r c) (rows df))))])
             (df\<lparr>rows := map (\<lambda>r. r(c := fillna_cell (hd (mode (map (\<lambda>r. r c) (rows df)))) (r c))) (rows df)\<rparr>))"
proof (cases "c \<in> set (columns df)")
  case False
  then show ?thesis by (simp add: get_column_def)
next
  case True
  show ?thesis
    using True set_column_update [OF True, of "fillna_cell (hd (mode (map (\<lambda>r. r c) (rows df))))"]
    by (simp add: get_column_def first_item_mode fillna_def)
qed

lemma zip_map2_self:
  "map (\<lambda>(r, v). r(c := v)) (zip rs (map2 f (map g rs) (map h rs))) = map (\<lambda>r. r(c := f (g r) (h r))) rs"
  by (induction rs) auto

lemma recalculate_total_eq:
  "recalculate_total pd df =
     (if ''Quantity'' \<notin> set (columns df) then Inl (KeyError (Label ''Quantity''))
      else if ''Price Per Unit'' \<notin> set (columns df) then Inl (KeyError (Label ''Price Per Unit''))
      else Inr \<lparr>columns = (if ''Total Spent'' \<in> set (columns df) then columns df
                           else columns df @ [''Total Spent'']),
                rows = map (\<lambda>r. r(''Total Spent'' := mul_cell pd (r ''Quantity'') (r ''Price Per Unit''))) (rows df)\<rparr>)"
  using zip_map2_self [of "''Total Spent''" "rows df" "mul_cell pd" "\<lambda>r. r ''Quantity''" "\<lambda>r. r ''Price Per Unit''"]
  by (simp add: recalculate_total_def get_column_def set_column_def)

section \<open>The repair steps in closed form\<close>

lemma replace_values_simps:
  "columns (replace_values vs df) = columns df"
  "length (rows (replace_values vs df)) = length (rows df)"
  by (simp_all add: replace_values_def)

lemma repair_complete:
  assumes hdr: "set numeric_columns \<union> set essential_columns \<union> set contextual_columns \<subseteq> set (columns df)"
  shows "\<exists>d1 d3.
      adjust_types pd df = Inr d1 \<and> columns d1 = columns df \<and> length (rows d1) = length (rows df) \<and>
      dropna essential_columns (replace_values values_to_treat_as_null d1) = Inr d3 \<and>
      columns d3 = columns df \<and>
      repair pd i df =
       (let ms4 = [FileLoaded i, AdjustingTypes, TypesAdjusted, StandardizingValues,
                   ValuesStandardized, CorrectingErrors,
                   RowsRemoved (length (rows df) - length (rows d3))];
            mL = hd (mode (map (\<lambda>r. r ''Location'') (rows d3)));
            mP = hd (mode (map (\<lambda>r. r ''Payment Method'') (rows d3)))
        in if \<forall>r\<in>set (rows d3). r ''Location'' = NaN then (ms4, Inl (KeyError (Position 0)))
           else if \<forall>r\<in>set (rows d3). r ''Payment Method'' = NaN
             then (ms4 @ [ModeFilled ''Location'' mL], Inl (KeyError (Position 0)))
           else (ms4 @ [ModeFilled ''Location'' mL, ModeFilled ''Payment Method'' mP, TotalRecalculated],
                 Inr (d3\<lparr>rows := map (\<lambda>r. r(''Location'' := fillna_cell mL (r ''Location''),
                                              ''Payment Method'' := fillna_cell mP (r ''Payment Method''),
                                              ''Total Spent'' := mul_cell pd (r ''Quantity'') (r ''Price Per Unit'')))
                                     (rows d3)\<rparr>)))"
proof -
  from hdr have mem:
    "''Price Per Unit'' \<in> set (columns df)" "''Quantity'' \<in> set (columns df)"
    "''Total Spent'' \<in> set (columns df)" "''Transaction Date'' \<in> set (columns df)"
    "''Item'' \<in> set (columns df)" "''Location'' \<in> set (columns df)"
    "''Payment Method'' \<in> set (columns df)"
    by (simp_all add: numeric_columns_def essential_columns_def contextual_columns_def)
  obtain d1 where d1: "adjust_types pd df = Inr d1" and c1: "columns d1 = columns df"
    and l1: "length (rows d1) = length (rows df)"
    using mem by (simp add: adjust_types_eq numeric_columns_def)
  let ?d2 = "replace_values values_to_treat_as_null d1"
  have c2: "columns ?d2 = columns df" and l2: "length (rows ?d2) = length (rows df)"
    using c1 l1 by (simp_all add: replace_values_simps)
  obtain d3 where d3: "dropna essential_columns ?d2 = Inr d3" and c3: "columns d3 = columns df"
    using mem c2 by (simp add: dropna_eq essential_columns_def)
  let ?ms4 = "[FileLoaded i, AdjustingTypes, TypesAdjusted, StandardizingValues,
               ValuesStandardized, CorrectingErrors,
               RowsRemoved (length (rows df) - length (rows d3))]"
  let ?mL = "hd (mode (map (\<lambda>r. r ''Location'') (rows d3)))"
  let ?mP = "hd (mode (map (\<lambda>r. r ''Payment Method'') (rows d3)))"
  let ?d4 = "d3\<lparr>rows := map (\<lambda>r. r(''Location'' := fillna_cell ?mL (r ''Location''),
                                     ''Payment Method'' := fillna_cell ?mP (r ''Payment Method'')))
                            (rows d3)\<rparr>"
  have fill: "fill_loop contextual_columns ?ms4 d3 =
      (if \<forall>r\<in>set (rows d3). r ''Location'' = NaN then (?ms4, Inl (KeyError (Position 0)))
       else if \<forall>r\<in>set (rows d3). r ''Payment Method'' = NaN
         then (?ms4 @ [ModeFilled ''Location'' ?mL], Inl (KeyError (Position 0)))
       else (?ms4 @ [ModeFilled ''Location'' ?mL, ModeFilled ''Payment Method'' ?mP], Inr ?d4))"
    using mem c3
    by (simp add: contextual_columns_def fill_loop_step o_def del: fill_loop.simps(2))
  have recalc: "recalculate_total pd ?d4 =
      Inr (d3\<lparr>rows := map (\<lambda>r. r(''Location'' := fillna_cell ?mL (r ''Location''),
                                   ''Payment Method'' := fillna_cell ?mP (r ''Payment Method''),
                                   ''Total Spent'' := mul_cell pd (r ''Quantity'') (r ''Price Per Unit'')))
                          (rows d3)\<rparr>)"
    using mem c3 by (simp add: recalculate_total_eq o_def)
  have "repair pd i df =
      (case fill_loop contextual_columns ?ms4 d3 of
         (ms5, Inl e) \<Rightarrow> (ms5, Inl e)
       | (ms5, Inr df4) \<Rightarrow>
           (case recalculate_total pd df4 of
              Inl e \<Rightarrow> (ms5, Inl e)
            | Inr df5 \<Rightarrow> (ms5 @ [TotalRecalculated], Inr df5)))"
    by (simp add: repair_def d1 d3 l2 Let_def)
  then have "repair pd i df = (let ms4 = [FileLoaded i, AdjustingTypes, TypesAdjusted, StandardizingValues,
                   ValuesStandardized, CorrectingErrors,
                   RowsRemoved (length (rows df) - length (rows d3))];
            mL = hd (mode (map (\<lambda>r. r ''Location'') (rows d3)));
            mP = hd (mode (map (\<lambda>r. r ''Payment Method'') (rows d3)))
        in if \<forall>r\<in>set (rows d3). r ''Location'' = NaN then (ms4, Inl (KeyError (Position 0)))
           else if \<forall>r\<in>set (rows d3). r ''Payment Method'' = NaN
             then (ms4 @ [ModeFilled ''Location'' mL], Inl (KeyError (Position 0)))
           else (ms4 @ [ModeFilled ''Location'' mL, ModeFilled ''Payment Method'' mP, TotalRecalculated],
                 Inr (d3\<lparr>rows := map (\<lambda>r. r(''Location'' := fillna_cell mL (r ''Location''),
                                              ''Payment Method'' := fillna_cell mP (r ''Payment Method''),
                                              ''Total Spent'' := mul_cell pd (r ''Quantity'') (r ''Price Per Unit'')))
                                     (rows d3)\<rparr>)))"
    unfolding fill by (simp add: recalc Let_def)
  with d1 c1 l1 d3 c3 show ?thesis by blast
qed

lemma find_SomeD: "find P xs = Some x \<Longrightarrow> x \<in> set xs \<and> P x"
  by (induction xs) (auto split: if_splits)

lemma repair_incomplete:
  assumes hdr: "\<not> set numeric_columns \<union> set essential_columns \<union> set contextual_columns \<subseteq> set (columns df)"
  shows "\<exists>ms k. repair pd i df = (ms, Inl (KeyError k)) \<and>
           ((\<exists>c. c \<in> set numeric_columns \<union> set essential_columns \<union> set contextual_columns \<and>
                 c \<notin> set (columns df) \<and> (k = Label c \<or> k = Labels [c])) \<or>
            (k = Position 0 \<and> ''Payment Method'' \<notin> set (columns df) \<and>
             set numeric_columns \<union> set essential_columns \<union> {''Location''} \<subseteq> set (columns df) \<and>
             (\<exists>d3. after_drop pd df = Inr d3 \<and> (\<forall>r\<in>set (rows d3). r ''Location'' = NaN))))"
proof (cases "find (\<lambda>c. c \<notin> set (columns df)) (numeric_columns @ [''Transaction Date''])")
  case (Some c)
  then have "c \<in> set (numeric_columns @ [''Transaction Date''])" and c: "c \<notin> set (columns df)"
    using find_SomeD [OF Some] by simp_all
  then have "c \<in> set numeric_columns \<union> set essential_columns \<union> set contextual_columns"
    by (auto simp: essential_columns_def)
  moreover have "repair pd i df = ([FileLoaded i, AdjustingTypes], Inl (KeyError (Label c)))"
    using Some by (simp add: repair_def adjust_types_eq)
  ultimately show ?thesis using c by blast
next
  case None
  then have mem: "''Price Per Unit'' \<in> set (columns df)" "''Quantity'' \<in> set (columns df)"
    "''Total Spent'' \<in> set (columns df)" "''Transaction Date'' \<in> set (columns df)"
    unfolding find_None_iff by (auto simp: numeric_columns_def)
  obtain d1 where d1: "adjust_types pd df = Inr d1" and c1: "columns d1 = columns df"
    using None by (simp add: adjust_types_eq)
  let ?d2 = "replace_values values_to_treat_as_null d1"
  have c2: "columns ?d2 = columns df" using c1 by (simp add: replace_values_simps)
  let ?ms3 = "[FileLoaded i, AdjustingTypes, TypesAdjusted, StandardizingValues,
               ValuesStandardized, CorrectingErrors]"
  show ?thesis
  proof (cases "''Item'' \<in> set (columns df)")
    case False
    then have "repair pd i df = (?ms3, Inl (KeyError (Labels [''Item''])))"
      using mem c2 by (simp add: repair_def d1 dropna_eq essential_columns_def Let_def)
    moreover have "''Item'' \<in> set numeric_columns \<union> set essential_columns \<union> set contextual_columns"
      by (simp add: essential_columns_def)
    ultimately show ?thesis using False by blast
  next
    case True
    obtain d3 where d3: "dropna essential_columns ?d2 = Inr d3" and c3: "columns d3 = columns df"
      using mem True c2 by (simp add: dropna_eq essential_columns_def)
    let ?ms4 = "?ms3 @ [RowsRemoved (length (rows ?d2) - length (rows d3))]"
    have rep: "repair pd i df =
      (case fill_loop contextual_columns ?ms4 d3 of
         (ms5, Inl e) \<Rightarrow> (ms5, Inl e)
       | (ms5, Inr df4) \<Rightarrow>
           (case recalculate_total pd df4 of
              Inl e \<Rightarrow> (ms5, Inl e)
            | Inr df5 \<Rightarrow> (ms5 @ [TotalRecalculated], Inr df5)))"
      by (simp add: repair_def d1 d3 Let_def)
    from hdr mem True have miss: "''Location'' \<notin> set (columns df) \<or> ''Payment Method'' \<notin> set (columns df)"
      by (auto simp: numeric_columns_def essential_columns_def contextual_columns_def)
    have inL: "''Location'' \<in> set numeric_columns \<union> set essential_columns \<union> set contextual_columns"
      and inP: "''Payment Method'' \<in> set numeric_columns \<union> set essential_columns \<union> set contextual_columns"
      by (simp_all add: contextual_columns_def)
    show ?thesis
    proof (cases "''Location'' \<in> set (columns df)")
      case False
      then have "repair pd i df = (?ms4, Inl (KeyError (Label ''Location'')))"
        unfolding rep using c3
        by (simp add: contextual_columns_def fill_loop_step del: fill_loop.simps(2))
      with False inL show ?thesis by blast
    next
      case L: True
      with miss have P: "''Payment Method'' \<notin> set (columns df)" by blast
      show ?thesis
      proof (cases "\<forall>r\<in>set (rows d3). r ''Location'' = NaN")
        case empty: True
        then have "repair pd i df = (?ms4, Inl (KeyError (Position 0)))"
          unfolding rep using c3 L
          by (simp add: contextual_columns_def fill_loop_step del: fill_loop.simps(2))
        moreover have "after_drop pd df = Inr d3"
          using d1 d3 by (simp add: after_drop_def)
        moreover have "set numeric_columns \<union> set essential_columns \<union> {''Location''} \<subseteq> set (columns df)"
          using mem True L by (simp add: numeric_columns_def essential_columns_def)
        ultimately show ?thesis using P empty by blast
      next
        case False
        then have "repair pd i df =
            (?ms4 @ [ModeFilled ''Location'' (hd (mode (map (\<lambda>r. r ''Location'') (rows d3))))],
             Inl (KeyError (Label ''Payment Method'')))"
          unfolding rep using c3 L P
          by (simp add: contextual_columns_def fill_loop_step del: fill_loop.simps(2))
        with P inP show ?thesis by blast
      qed
    qed
  qed
qed

section \<open>Duplicates\<close>

lemma length_duplicated_from: "length (duplicated_from seen xs) = length xs"
  by (induction xs arbitrary: seen) auto

lemma duplicated_from_nth:
  "i < length xs \<Longrightarrow>
   duplicated_from seen xs ! i = (xs ! i \<in> set seen \<or> (\<exists>j<i. xs ! j = xs ! i))"
proof (induction xs arbitrary: seen i)
  case Nil
  then show ?case by simp
next
  case (Cons x xs)
  show ?case
  proof (cases i)
    case 0
    then show ?thesis by simp
  next
    case (Suc n)
    with Cons.prems have n: "n < length xs" by simp
    have "(\<exists>j<Suc n. (x # xs) ! j = xs ! n) = (x = xs ! n \<or> (\<exists>j<n. xs ! j = xs ! n))"
      by (auto simp: less_Suc_eq_0_disj)
    then show ?thesis using Suc Cons.IH [OF n, of "x # seen"] by auto
  qed
qed

lemma kept_by_index:
  "length fs = length rs \<Longrightarrow>
   map fst (filter (\<lambda>(r, d). \<not> d) (zip rs fs)) = map ((!) rs) (filter (\<lambda>i. \<not> fs ! i) [0..<length rs])"
proof (induction fs rs rule: list_induct2)
  case Nil
  show ?case by simp
next
  case (Cons f fs r rs)
  have upt: "[0..<length (r # rs)] = 0 # map Suc [0..<length rs]"
    by (simp add: upt_conv_Cons map_Suc_upt del: upt_Suc)
  show ?case
    unfolding upt using Cons.IH by (simp add: filter_map o_def)
qed

lemma kept_count:
  "length fs = length rs \<Longrightarrow>
   length (filter (\<lambda>(r, d). \<not> d) (zip rs fs)) + length (filter id fs) = length rs"
  by (induction fs rs rule: list_induct2) auto

lemma kept_all:
  "length fs = length rs \<Longrightarrow> filter id fs = [] \<Longrightarrow>
   map fst (filter (\<lambda>(r, d). \<not> d) (zip rs fs)) = rs"
  by (induction fs rs rule: list_induct2) (auto split: if_splits)

lemma kept_keys:
  "distinct (map k (map fst (filter (\<lambda>(r, d). \<not> d) (zip rs (duplicated_from seen (map k rs)))))) \<and>
   set (map k (map fst (filter (\<lambda>(r, d). \<not> d) (zip rs (duplicated_from seen (map k rs)))))) =
     set (map k rs) - set seen"
proof (induction rs arbitrary: seen)
  case Nil
  show ?case by simp
next
  case (Cons r rs)
  from Cons.IH [of "k r # seen"] show ?case by auto
qed

lemma drop_duplicates_simps:
  "columns (drop_duplicates d) = columns d"
  "rows (drop_duplicates d) =
     map ((!) (rows d)) (filter (\<lambda>n. \<not> (\<exists>j<n. df_values d ! j = df_values d ! n)) [0..<length (rows d)])"
  "distinct (df_values (drop_duplicates d))"
  "length (rows (drop_duplicates d)) + length (filter id (duplicated d)) = length (rows d)"
proof -
  have len: "length (duplicated d) = length (rows d)"
    by (simp add: duplicated_def df_values_def length_duplicated_from)
  show "columns (drop_duplicates d) = columns d" by (simp add: drop_duplicates_def)
  have "filter (\<lambda>i. \<not> duplicated d ! i) [0..<length (rows d)]
        = filter (\<lambda>n. \<not> (\<exists>j<n. df_values d ! j = df_values d ! n)) [0..<length (rows d)]"
    by (rule filter_cong) (auto simp: duplicated_def duplicated_from_nth df_values_def)
  then show "rows (drop_duplicates d) =
     map ((!) (rows d)) (filter (\<lambda>n. \<not> (\<exists>j<n. df_values d ! j = df_values d ! n)) [0..<length (rows d)])"
    using kept_by_index [OF len] by (simp add: drop_duplicates_def)
  show "distinct (df_values (drop_duplicates d))"
    using kept_keys [of "row_values (columns d)" "rows d" "[]"]
    by (simp add: drop_duplicates_def df_values_def duplicated_def)
  show "length (rows (drop_duplicates d)) + length (filter id (duplicated d)) = length (rows d)"
    using kept_count [OF len] by (simp add: drop_duplicates_def)
qed

lemma drop_duplicates_none:
  assumes "filter id (duplicated d) = []"
  shows "drop_duplicates d = d"
proof -
  have len: "length (duplicated d) = length (rows d)"
    by (simp add: duplicated_def df_values_def length_duplicated_from)
  show ?thesis using kept_all [OF len assms] by (simp add: drop_duplicates_def)
qed

lemma finish_simps:
  "to_csv_call (finish w output_file ms d) = Some (output_file, drop_duplicates d)"
  "raised (finish w output_file ms d) = None"
  by (auto simp: finish_def Let_def drop_duplicates_none split: option.splits)

section \<open>Runs that reach the save\<close>

lemma run_written:
  assumes "to_csv_call (clean_data pd w i out_file) = Some (p, out)"
  obtains df d1 d3 where
    "read_csv w i = Inr df"
    "set numeric_columns \<union> set essential_columns \<union> set contextual_columns \<subseteq> set (columns df)"
    "adjust_types pd df = Inr d1" "columns d1 = columns df" "length (rows d1) = length (rows df)"
    "dropna essential_columns (replace_values values_to_treat_as_null d1) = Inr d3"
    "columns d3 = columns df"
    "\<exists>r\<in>set (rows d3). r ''Location'' \<noteq> NaN"
    "\<exists>r\<in>set (rows d3). r ''Payment Method'' \<noteq> NaN"
    "repair pd i df =
       ([FileLoaded i, AdjustingTypes, TypesAdjusted, StandardizingValues,
         ValuesStandardized, CorrectingErrors,
         RowsRemoved (length (rows df) - length (rows d3)),
         ModeFilled ''Location'' (hd (mode (map (\<lambda>r. r ''Location'') (rows d3)))),
         ModeFilled ''Payment Method'' (hd (mode (map (\<lambda>r. r ''Payment Method'') (rows d3)))),
         TotalRecalculated],
        Inr (d3\<lparr>rows := map (\<lambda>r. r(''Location'' := fillna_cell (hd (mode (map (\<lambda>r. r ''Location'') (rows d3)))) (r ''Location''),
                                   ''Payment Method'' := fillna_cell (hd (mode (map (\<lambda>r. r ''Payment Method'') (rows d3)))) (r ''Payment Method''),
                                   ''Total Spent'' := mul_cell pd (r ''Quantity'') (r ''Price Per Unit'')))
                          (rows d3)\<rparr>))"
    "p = out_file"
    "out = drop_duplicates
       (d3\<lparr>rows := map (\<lambda>r. r(''Location'' := fillna_cell (hd (mode (map (\<lambda>r. r ''Location'') (rows d3)))) (r ''Location''),
                                   ''Payment Method'' := fillna_cell (hd (mode (map (\<lambda>r. r ''Payment Method'') (rows d3)))) (r ''Payment Method''),
                                   ''Total Spent'' := mul_cell pd (r ''Quantity'') (r ''Price Per Unit'')))
                          (rows d3)\<rparr>)"
proof -
  from assms obtain df where df: "read_csv w i = Inr df"
    by (cases "read_csv w i") (auto simp: clean_data_def uncaught_def split: if_splits)
  obtain ms res where rep: "repair pd i df = (ms, res)" by (cases "repair pd i df")
  from assms df rep obtain d5 where res: "res = Inr d5"
    by (cases res) (auto simp: clean_data_def uncaught_def)
  from assms df rep res have p: "p = out_file" and out: "out = drop_duplicates d5"
    by (simp_all add: clean_data_def finish_simps)
  have hdr: "set numeric_columns \<union> set essential_columns \<union> set contextual_columns \<subseteq> set (columns df)"
  proof (rule ccontr)
    assume "\<not> ?thesis"
    from repair_incomplete [OF this, of pd i] rep res show False by auto
  qed
  from repair_complete [OF hdr, of pd i] obtain d1 d3 where
    d1: "adjust_types pd df = Inr d1" "columns d1 = columns df" "length (rows d1) = length (rows df)"
    and d3: "dropna essential_columns (replace_values values_to_treat_as_null d1) = Inr d3"
      "columns d3 = columns df"
    and eq: "repair pd i df =
       (let ms4 = [FileLoaded i, AdjustingTypes, TypesAdjusted, StandardizingValues,
                   ValuesStandardized, CorrectingErrors,
                   RowsRemoved (length (rows df) - length (rows d3))];
            mL = hd (mode (map (\<lambda>r. r ''Location'') (rows d3)));
            mP = hd (mode (map (\<lambda>r. r ''Payment Method'') (rows d3)))
        in if \<forall>r\<in>set (rows d3). r ''Location'' = NaN then (ms4, Inl (KeyError (Position 0)))
           else if \<forall>r\<in>set (rows d3). r ''Payment Method'' = NaN
             then (ms4 @ [ModeFilled ''Location'' mL], Inl (KeyError (Position 0)))
           else (ms4 @ [ModeFilled ''Location'' mL, ModeFilled ''Payment Method'' mP, TotalRecalculated],
                 Inr (d3\<lparr>rows := map (\<lambda>r. r(''Location'' := fillna_cell mL (r ''Location''),
                                              ''Payment Method'' := fillna_cell mP (r ''Payment Method''),
                                              ''Total Spent'' := mul_cell pd (r ''Quantity'') (r ''Price Per Unit'')))
                                     (rows d3)\<rparr>)))"
    by blast
  have exL: "\<exists>r\<in>set (rows d3). r ''Location'' \<noteq> NaN"
    using eq rep res by (auto simp: Let_def split: if_splits)
  have exP: "\<exists>r\<in>set (rows d3). r ''Payment Method'' \<noteq> NaN"
    using eq rep res by (auto simp: Let_def split: if_splits)
  from eq exL exP have eq': "repair pd i df =
       ([FileLoaded i, AdjustingTypes, TypesAdjusted, StandardizingValues,
         ValuesStandardized, CorrectingErrors,
         RowsRemoved (length (rows df) - length (rows d3)),
         ModeFilled ''Location'' (hd (mode (map (\<lambda>r. r ''Location'') (rows d3)))),
         ModeFilled ''Payment Method'' (hd (mode (map (\<lambda>r. r ''Payment Method'') (rows d3)))),
         TotalRecalculated],
        Inr (d3\<lparr>rows := map (\<lambda>r. r(''Location'' := fillna_cell (hd (mode (map (\<lambda>r. r ''Location'') (rows d3)))) (r ''Location''),
                                   ''Payment Method'' := fillna_cell (hd (mode (map (\<lambda>r. r ''Payment Method'') (rows d3)))) (r ''Payment Method''),
                                   ''Total Spent'' := mul_cell pd (r ''Quantity'') (r ''Price Per Unit'')))
                          (rows d3)\<rparr>))"
    by (simp add: Let_def)
  with rep res out have out': "out = drop_duplicates
       (d3\<lparr>rows := map (\<lambda>r. r(''Location'' := fillna_cell (hd (mode (map (\<lambda>r. r ''Location'') (rows d3)))) (r ''Location''),
                                   ''Payment Method'' := fillna_cell (hd (mode (map (\<lambda>r. r ''Payment Method'') (rows d3)))) (r ''Payment Method''),
                                   ''Total Spent'' := mul_cell pd (r ''Quantity'') (r ''Price Per Unit'')))
                          (rows d3)\<rparr>)"
    by simp
  from that [OF df hdr d1 d3 exL exP eq' p out'] show thesis .
qed

lemma set_rows_drop_duplicates: "set (rows (drop_duplicates d)) \<subseteq> set (rows d)"
  by (auto simp: drop_duplicates_def dest: set_zip_leftD)

lemma to_numeric_cell_cases: "to_numeric_cell pd c = NaN \<or> (\<exists>n. to_numeric_cell pd c = Num n)"
  by (cases c) (auto split: option.splits)

lemma adjust_types_numeric:
  assumes "adjust_types pd df = Inr d1" and "r \<in> set (rows d1)" and "c \<in> set numeric_columns"
  shows "r c = NaN \<or> (\<exists>n. r c = Num n)"
proof -
  from assms(1) have "rows d1 = map (\<lambda>r c. if c \<in> set numeric_columns then to_numeric_cell pd (r c)
                                           else if c = ''Transaction Date'' then to_datetime_cell pd (r c)
                                           else r c) (rows df)"
    by (auto simp: adjust_types_eq split: option.splits)
  with assms(2) obtain r0 where
    "r = (\<lambda>c. if c \<in> set numeric_columns then to_numeric_cell pd (r0 c)
              else if c = ''Transaction Date'' then to_datetime_cell pd (r0 c)
              else r0 c)"
    by auto
  with assms(3) have "r c = to_numeric_cell pd (r0 c)" by simp
  then show ?thesis using to_numeric_cell_cases [of pd "r0 c"] by simp
qed

lemma replace_values_numeric:
  assumes "r \<in> set (rows (replace_values vs d))"
  shows "\<exists>r0\<in>set (rows d). \<forall>c. (r0 c = NaN \<or> (\<exists>n. r0 c = Num n)) \<longrightarrow> r c = r0 c"
proof -
  from assms obtain r0 where r0: "r0 \<in> set (rows d)"
    and r: "r = (\<lambda>c. if c \<in> set (columns d) then replace_cell vs (r0 c) else r0 c)"
    by (auto simp: replace_values_def)
  have "r c = r0 c" if "r0 c = NaN \<or> (\<exists>n. r0 c = Num n)" for c
    using that r by auto
  with r0 show ?thesis by blast
qed

lemma dropna_rows:
  "dropna labels d = Inr d' \<Longrightarrow> rows d' = filter (\<lambda>r. \<forall>c\<in>set labels. r c \<noteq> NaN) (rows d)"
  by (auto simp: dropna_eq split: if_splits)


lemma df_values_nth_eq:
  assumes "j < length (rows d)" and "n < length (rows d)"
  shows "(df_values d ! j = df_values d ! n) = (\<forall>c\<in>set (columns d). (rows d ! j) c = (rows d ! n) c)"
  using assms by (simp add: df_values_def row_values_def)


section \<open>The written table is a fixed point\<close>











section \<open>The claims\<close>

text \<open>
  Claim C1, amended. In every row of the table handed to \<^verbatim>\<open>to_csv\<close>, Quantity and Price
  Per Unit are numbers and Total Spent holds their product as line 76 computes it, whatever
  Total Spent held in the input: the number \<open>t\<close> when the product of the two numbers is
  \<open>t\<close>, and the missing marker when that product is NaN.
\<close>

theorem total_spent_is_float_product:
  assumes "to_csv_call (clean_data pd w input_file output_file) = Some (p, out)"
    and "r \<in> set (rows out)"
  shows "\<exists>q u. r ''Quantity'' = Num q \<and> r ''Price Per Unit'' = Num u \<and>
               r ''Total Spent'' = (case multiply pd q u of Some t \<Rightarrow> Num t | None \<Rightarrow> NaN)"
proof -
  from assms(1) obtain df d1 d3 mL mP where
    d1: "adjust_types pd df = Inr d1"
    and d3: "dropna essential_columns (replace_values values_to_treat_as_null d1) = Inr d3"
    and out: "out = drop_duplicates
       (d3\<lparr>rows := map (\<lambda>r. r(''Location'' := fillna_cell mL (r ''Location''),
                               ''Payment Method'' := fillna_cell mP (r ''Payment Method''),
                               ''Total Spent'' := mul_cell pd (r ''Quantity'') (r ''Price Per Unit'')))
                      (rows d3)\<rparr>)"
    by (rule run_written) blast
  from assms(2) out set_rows_drop_duplicates obtain r3 where
    r3: "r3 \<in> set (rows d3)"
    and r: "r = r3(''Location'' := fillna_cell mL (r3 ''Location''),
                   ''Payment Method'' := fillna_cell mP (r3 ''Payment Method''),
                   ''Total Spent'' := mul_cell pd (r3 ''Quantity'') (r3 ''Price Per Unit''))"
    by fastforce
  from r3 dropna_rows [OF d3] have r2: "r3 \<in> set (rows (replace_values values_to_treat_as_null d1))"
    and nn: "r3 ''Quantity'' \<noteq> NaN" "r3 ''Price Per Unit'' \<noteq> NaN"
    by (simp_all add: essential_columns_def)
  from replace_values_numeric [OF r2] obtain r1 where r1: "r1 \<in> set (rows d1)"
    and same: "\<forall>c. (r1 c = NaN \<or> (\<exists>n. r1 c = Num n)) \<longrightarrow> r3 c = r1 c"
    by blast
  have "r1 ''Quantity'' = NaN \<or> (\<exists>n. r1 ''Quantity'' = Num n)"
    and "r1 ''Price Per Unit'' = NaN \<or> (\<exists>n. r1 ''Price Per Unit'' = Num n)"
    using adjust_types_numeric [OF d1 r1] by (simp_all add: numeric_columns_def)
  with same nn obtain q u where "r3 ''Quantity'' = Num q" "r3 ''Price Per Unit'' = Num u"
    by metis
  then show ?thesis unfolding r by simp
qed

theorem total_spent_is_float_product_witness:
  "\<exists>out. to_csv_call (clean_data cafe_pandas cafe_world ''dirty.csv'' ''clean.csv'') = Some (''clean.csv'', out) \<and>
     map (\<lambda>r. [r ''Quantity'', r ''Price Per Unit'', r ''Total Spent'']) (rows out) =
       [[Num 2, Num (7 / 2), Num 7], [Num 3, Num 3, Num 9], [Num 1, Num 2, Num 2], [Num 2, Num 3, Num 6]] \<and>
     (\<exists>q u. hd (rows out) ''Quantity'' = Num q \<and> hd (rows out) ''Price Per Unit'' = Num u \<and>
            hd (rows out) ''Total Spent'' =
              (case multiply cafe_pandas q u of Some t \<Rightarrow> Num t | None \<Rightarrow> NaN))"
proof -
  have "map_option (\<lambda>(p, d). (p, map (\<lambda>r. [r ''Quantity'', r ''Price Per Unit'', r ''Total Spent'']) (rows d)))
          (to_csv_call (clean_data cafe_pandas cafe_world ''dirty.csv'' ''clean.csv''))
        = Some (''clean.csv'', [[Num 2, Num (7 / 2), Num 7], [Num 3, Num 3, Num 9], [Num 1, Num 2, Num 2], [Num 2, Num 3, Num 6]])"
    by code_simp
  then obtain out where
    run: "to_csv_call (clean_data cafe_pandas cafe_world ''dirty.csv'' ''clean.csv'') = Some (''clean.csv'', out)"
    and vals: "map (\<lambda>r. [r ''Quantity'', r ''Price Per Unit'', r ''Total Spent'']) (rows out) =
       [[Num 2, Num (7 / 2), Num 7], [Num 3, Num 3, Num 9], [Num 1, Num 2, Num 2], [Num 2, Num 3, Num 6]]"
    by auto
  from vals have "hd (rows out) \<in> set (rows out)" by (cases "rows out") auto
  from total_spent_is_float_product [OF run this] run vals show ?thesis
    by (intro exI [of _ out] conjI)
qed

text \<open>
  The claim as written makes Total Spent a number equal to the product in every row. A row
  with Quantity \<^verbatim>\<open>inf\<close> and Price Per Unit \<^verbatim>\<open>0\<close> passes the drop (neither is missing) and
  leaves the run with Total Spent missing.
\<close>

theorem total_spent_missing_counterexample:
  "read_csv float_world ''inf.csv'' = Inr inf_sales \<and>
   map (\<lambda>r. [r ''Quantity'', r ''Price Per Unit'']) (rows inf_sales) = [[Num \<infinity>, Num 0], [Num 2, Num 3]] \<and>
   multiply float_pandas \<infinity> 0 = None \<and>
   map_option (\<lambda>(p, d). map (\<lambda>r. [r ''Quantity'', r ''Price Per Unit'', r ''Total Spent'']) (rows d))
      (to_csv_call (clean_data float_pandas float_world ''inf.csv'' ''clean.csv''))
     = Some [[Num \<infinity>, Num 0, NaN], [Num 2, Num 3, Num 6]]"
proof (intro conjI)
  show "read_csv float_world ''inf.csv'' = Inr inf_sales"
    by (simp add: float_world_def)
  show "map (\<lambda>r. [r ''Quantity'', r ''Price Per Unit'']) (rows inf_sales) = [[Num \<infinity>, Num 0], [Num 2, Num 3]]"
    by code_simp
  show "multiply float_pandas \<infinity> 0 = None"
    by (simp add: float_pandas_def)
  show "map_option (\<lambda>(p, d). map (\<lambda>r. [r ''Quantity'', r ''Price Per Unit'', r ''Total Spent'']) (rows d))
      (to_csv_call (clean_data float_pandas float_world ''inf.csv'' ''clean.csv''))
     = Some [[Num \<infinity>, Num 0, NaN], [Num 2, Num 3, Num 6]]"
    by code_simp
qed



text \<open>
  Claim C3, amended. In a run that reaches \<^verbatim>\<open>to_csv\<close> (both contextual columns hold a
  value after the drop), for each contextual column \<open>c\<close>, with \<open>col\<close> the column of the
  table after the drop: the value \<open>m\<close> of \<^verbatim>\<open>mode()[0]\<close> is printed, occurs in \<open>col\<close>, is
  not missing, and no non-missing value of \<open>col\<close> is more frequent; every missing marker of
  the column is replaced by \<open>m\<close> and nothing else in the column changes, so the output has
  no missing marker there. When the values of \<open>col\<close> are texts, \<open>m\<close> is the smallest, in
  lexicographic order, of the equally most frequent texts.
\<close>

theorem contextual_fill_smallest_mode:
  assumes "to_csv_call (clean_data pd w input_file output_file) = Some (p, out)"
    and "c \<in> set contextual_columns"
  shows "\<exists>df d3 ms d5 col m.
     read_csv w input_file = Inr df \<and> after_drop pd df = Inr d3 \<and>
     repair pd input_file df = (ms, Inr d5) \<and> out = drop_duplicates d5 \<and>
     col = map (\<lambda>r. r c) (rows d3) \<and>
     first_item (mode col) = Inr m \<and> ModeFilled c m \<in> set ms \<and>
     m \<in> set col \<and> m \<noteq> NaN \<and>
     (\<forall>v\<in>set col. v \<noteq> NaN \<longrightarrow> count_list col v \<le> count_list col m) \<and>
     ((\<forall>v\<in>set col. v \<noteq> NaN \<longrightarrow> (\<exists>s. v = Str s)) \<longrightarrow>
        (\<exists>s. m = Str s \<and>
             (\<forall>s'. Str s' \<in> set col \<and> count_list col (Str s') = count_list col m \<longrightarrow> s \<le> s'))) \<and>
     map (\<lambda>r. r c) (rows d5) = map (fillna_cell m) col \<and>
     (\<forall>r\<in>set (rows out). r c \<noteq> NaN)"
proof -
  let ?L = "\<lambda>d. hd (mode (map (\<lambda>r. r ''Location'') (rows d)))"
  let ?P = "\<lambda>d. hd (mode (map (\<lambda>r. r ''Payment Method'') (rows d)))"
  let ?F = "\<lambda>d r. r(''Location'' := fillna_cell (?L d) (r ''Location''),
                     ''Payment Method'' := fillna_cell (?P d) (r ''Payment Method''),
                     ''Total Spent'' := mul_cell pd (r ''Quantity'') (r ''Price Per Unit''))"
  from assms(1) obtain df d1 d3 where
    df: "read_csv w input_file = Inr df"
    and d1: "adjust_types pd df = Inr d1"
    and d3: "dropna essential_columns (replace_values values_to_treat_as_null d1) = Inr d3"
    and exL: "\<exists>r\<in>set (rows d3). r ''Location'' \<noteq> NaN"
    and exP: "\<exists>r\<in>set (rows d3). r ''Payment Method'' \<noteq> NaN"
    and rep: "repair pd input_file df =
       ([FileLoaded input_file, AdjustingTypes, TypesAdjusted, StandardizingValues,
         ValuesStandardized, CorrectingErrors,
         RowsRemoved (length (rows df) - length (rows d3)),
         ModeFilled ''Location'' (?L d3), ModeFilled ''Payment Method'' (?P d3),
         TotalRecalculated],
        Inr (d3\<lparr>rows := map (?F d3) (rows d3)\<rparr>))"
    and out: "out = drop_duplicates (d3\<lparr>rows := map (?F d3) (rows d3)\<rparr>)"
    by (rule run_written)
  let ?ms = "[FileLoaded input_file, AdjustingTypes, TypesAdjusted, StandardizingValues,
         ValuesStandardized, CorrectingErrors,
         RowsRemoved (length (rows df) - length (rows d3)),
         ModeFilled ''Location'' (?L d3), ModeFilled ''Payment Method'' (?P d3),
         TotalRecalculated]"
  let ?d5 = "d3\<lparr>rows := map (?F d3) (rows d3)\<rparr>"
  let ?col = "map (\<lambda>r. r c) (rows d3)"
  let ?m = "hd (mode ?col)"
  have ad: "after_drop pd df = Inr d3" using d1 d3 by (simp add: after_drop_def)
  from assms(2) have c: "c = ''Location'' \<or> c = ''Payment Method''"
    by (simp add: contextual_columns_def)
  with exL exP have ex: "\<exists>v\<in>set ?col. v \<noteq> NaN" by auto
  then have fi: "first_item (mode ?col) = Inr ?m" by (auto simp: first_item_mode)
  have msg: "ModeFilled c ?m \<in> set ?ms" using c by auto
  note top = hd_mode [OF ex]
  have tie: "(\<forall>v\<in>set ?col. v \<noteq> NaN \<longrightarrow> (\<exists>s. v = Str s)) \<longrightarrow>
        (\<exists>s. ?m = Str s \<and>
             (\<forall>s'. Str s' \<in> set ?col \<and> count_list ?col (Str s') = count_list ?col ?m \<longrightarrow> s \<le> s'))"
  proof
    assume "\<forall>v\<in>set ?col. v \<noteq> NaN \<longrightarrow> (\<exists>s. v = Str s)"
    from hd_mode_text [OF ex this] obtain s where
      s: "?m = Str s"
      and le: "\<forall>s'. Str s' \<in> set ?col \<and> count_list ?col (Str s) \<le> count_list ?col (Str s') \<longrightarrow> s \<le> s'"
      by blast
    from le s have "\<forall>s'. Str s' \<in> set ?col \<and> count_list ?col (Str s') = count_list ?col ?m \<longrightarrow> s \<le> s'"
      by simp
    with s show "\<exists>s. ?m = Str s \<and>
             (\<forall>s'. Str s' \<in> set ?col \<and> count_list ?col (Str s') = count_list ?col ?m \<longrightarrow> s \<le> s')"
      by blast
  qed
  have filled: "map (\<lambda>r. r c) (rows ?d5) = map (fillna_cell ?m) ?col"
    using c by (auto simp: o_def)
  have nonan: "fillna_cell ?m v \<noteq> NaN" for v
    using top by (cases v) simp_all
  have "r c \<noteq> NaN" if "r \<in> set (rows out)" for r
  proof -
    from that out set_rows_drop_duplicates [of ?d5] have "r \<in> set (rows ?d5)" by blast
    then have "r c \<in> (\<lambda>r. r c) ` set (rows ?d5)" by (rule imageI)
    then have "r c \<in> set (map (\<lambda>r. r c) (rows ?d5))" unfolding set_map .
    then have "r c \<in> set (map (fillna_cell ?m) ?col)" by (simp only: filled)
    then obtain v where "r c = fillna_cell ?m v" by auto
    with nonan show ?thesis by simp
  qed
  then have all: "\<forall>r\<in>set (rows out). r c \<noteq> NaN" by blast
  from df ad rep out fi msg top tie filled all show ?thesis
    by (intro exI [of _ df] exI [of _ d3] exI [of _ ?ms] exI [of _ ?d5] exI [of _ ?col]
          exI [of _ ?m] conjI) simp_all
qed

theorem contextual_fill_smallest_mode_witness:
  "\<exists>d3 out m.
     to_csv_call (clean_data cafe_pandas cafe_world ''tie.csv'' ''clean.csv'') = Some (''clean.csv'', out) \<and>
     ''Location'' \<in> set contextual_columns \<and>
     after_drop cafe_pandas tie_sales = Inr d3 \<and>
     map (\<lambda>r. r ''Location'') (rows d3) = [Str ''Takeaway'', Str ''In-store'', NaN] \<and>
     first_item (mode (map (\<lambda>r. r ''Location'') (rows d3))) = Inr m \<and>
     m = Str ''In-store'' \<and>
     map (\<lambda>r. r ''Location'') (rows out) = [Str ''Takeaway'', Str ''In-store'', Str ''In-store'']"
proof -
  have "map_option (\<lambda>(p, d). (p, map (\<lambda>r. r ''Location'') (rows d)))
          (to_csv_call (clean_data cafe_pandas cafe_world ''tie.csv'' ''clean.csv''))
        = Some (''clean.csv'', [Str ''Takeaway'', Str ''In-store'', Str ''In-store''])"
    by code_simp
  then obtain out where
    run: "to_csv_call (clean_data cafe_pandas cafe_world ''tie.csv'' ''clean.csv'') = Some (''clean.csv'', out)"
    and vals: "map (\<lambda>r. r ''Location'') (rows out) = [Str ''Takeaway'', Str ''In-store'', Str ''In-store'']"
    by auto
  have c: "''Location'' \<in> set contextual_columns" by (simp add: contextual_columns_def)
  from contextual_fill_smallest_mode [OF run c] obtain df d3 m where
    df: "read_csv cafe_world ''tie.csv'' = Inr df"
    and d3: "after_drop cafe_pandas df = Inr d3"
    and fi: "first_item (mode (map (\<lambda>r. r ''Location'') (rows d3))) = Inr m"
    by blast
  from df have dfeq: "df = tie_sales" by (simp add: cafe_world_def)
  have "(case after_drop cafe_pandas tie_sales of
           Inl e \<Rightarrow> None | Inr d \<Rightarrow> Some (map (\<lambda>r. r ''Location'') (rows d)))
        = Some [Str ''Takeaway'', Str ''In-store'', NaN]"
    by code_simp
  with d3 dfeq have col: "map (\<lambda>r. r ''Location'') (rows d3) = [Str ''Takeaway'', Str ''In-store'', NaN]"
    by simp
  have "first_item (mode [Str ''Takeaway'', Str ''In-store'', NaN :: (rat, string) cell])
        = Inr (Str ''In-store'')"
    by code_simp
  with fi col have m: "m = Str ''In-store''" by simp
  from run c d3 dfeq col fi m vals show ?thesis
    by (intro exI [of _ d3] exI [of _ out] exI [of _ m] conjI) simp_all
qed

text \<open>
  The claim as written breaks a tie in favour of the value met first. In \<open>tie_sales\<close>,
  Takeaway and In-store occur once each after the drop, Takeaway first; the script fills
  the missing Location with In-store.
\<close>

theorem first_encountered_tie_break_counterexample:
  "(case after_drop cafe_pandas tie_sales of
      Inl e \<Rightarrow> None | Inr d \<Rightarrow> Some (map (\<lambda>r. r ''Location'') (rows d)))
     = Some [Str ''Takeaway'', Str ''In-store'', NaN] \<and>
   first_encountered_mode [Str ''Takeaway'', Str ''In-store'', NaN :: (rat, string) cell]
     = Some (Str ''Takeaway'') \<and>
   map_option (\<lambda>(p, d). map (\<lambda>r. r ''Location'') (rows d))
      (to_csv_call (clean_data cafe_pandas cafe_world ''tie.csv'' ''clean.csv''))
     = Some [Str ''Takeaway'', Str ''In-store'', Str ''In-store'']"
  by code_simp

text \<open>
  Claim C4. With \<open>d5\<close> the table after the total is recalculated, the table handed to
  \<^verbatim>\<open>to_csv\<close> has the same header and holds, in order, exactly the rows of \<open>d5\<close> that
  no earlier row of \<open>d5\<close> equals in every column of the header: a row is removed if and
  only if an earlier row equals it, the first occurrence stays, the order is kept. Hence
  no two rows of the output are equal in every column.
\<close>

theorem first_occurrences_kept:
  assumes "to_csv_call (clean_data pd w input_file output_file) = Some (p, out)"
  shows "\<exists>df ms d5.
           read_csv w input_file = Inr df \<and> repair pd input_file df = (ms, Inr d5) \<and>
           columns out = columns d5 \<and>
           rows out =
             map ((!) (rows d5))
               (filter (\<lambda>n. \<not> (\<exists>j<n. \<forall>c\<in>set (columns d5). (rows d5 ! j) c = (rows d5 ! n) c))
                  [0..<length (rows d5)]) \<and>
           distinct (df_values out)"
proof -
  from assms obtain df ms d5 where
    df: "read_csv w input_file = Inr df"
    and rep: "repair pd input_file df = (ms, Inr d5)"
    and out: "out = drop_duplicates d5"
    by (rule run_written) blast
  have "filter (\<lambda>n. \<not> (\<exists>j<n. df_values d5 ! j = df_values d5 ! n)) [0..<length (rows d5)]
        = filter (\<lambda>n. \<not> (\<exists>j<n. \<forall>c\<in>set (columns d5). (rows d5 ! j) c = (rows d5 ! n) c))
            [0..<length (rows d5)]"
    by (rule filter_cong) (auto simp: df_values_nth_eq)
  then have "rows out =
             map ((!) (rows d5))
               (filter (\<lambda>n. \<not> (\<exists>j<n. \<forall>c\<in>set (columns d5). (rows d5 ! j) c = (rows d5 ! n) c))
                  [0..<length (rows d5)])"
    unfolding out by (simp add: drop_duplicates_simps(2))
  moreover have "columns out = columns d5" "distinct (df_values out)"
    unfolding out by (simp_all add: drop_duplicates_simps)
  ultimately show ?thesis using df rep by blast
qed

theorem first_occurrences_kept_witness:
  "\<exists>ms d5 out.
     to_csv_call (clean_data cafe_pandas cafe_world ''dirty.csv'' ''clean.csv'') = Some (''clean.csv'', out) \<and>
     repair cafe_pandas ''dirty.csv'' dirty_sales = (ms, Inr d5) \<and>
     map (\<lambda>r. [r ''Transaction ID'', r ''Total Spent'']) (rows d5) =
       [[Str ''TXN_1'', Num 7], [Str ''TXN_4'', Num 9], [Str ''TXN_4'', Num 9],
        [Str ''TXN_6'', Num 2], [Str ''TXN_7'', Num 6]] \<and>
     map (\<lambda>r. [r ''Transaction ID'', r ''Total Spent'']) (rows out) =
       [[Str ''TXN_1'', Num 7], [Str ''TXN_4'', Num 9], [Str ''TXN_6'', Num 2], [Str ''TXN_7'', Num 6]] \<and>
     distinct (df_values out)"
proof -
  have "map_option (\<lambda>(p, d). (p, map (\<lambda>r. [r ''Transaction ID'', r ''Total Spent'']) (rows d)))
          (to_csv_call (clean_data cafe_pandas cafe_world ''dirty.csv'' ''clean.csv''))
        = Some (''clean.csv'',
            [[Str ''TXN_1'', Num 7], [Str ''TXN_4'', Num 9], [Str ''TXN_6'', Num 2], [Str ''TXN_7'', Num 6]])"
    by code_simp
  then obtain out where
    run: "to_csv_call (clean_data cafe_pandas cafe_world ''dirty.csv'' ''clean.csv'') = Some (''clean.csv'', out)"
    and vals: "map (\<lambda>r. [r ''Transaction ID'', r ''Total Spent'']) (rows out) =
       [[Str ''TXN_1'', Num 7], [Str ''TXN_4'', Num 9], [Str ''TXN_6'', Num 2], [Str ''TXN_7'', Num 6]]"
    by auto
  from first_occurrences_kept [OF run] obtain df ms d5 where
    df: "read_csv cafe_world ''dirty.csv'' = Inr df"
    and rep: "repair cafe_pandas ''dirty.csv'' df = (ms, Inr d5)"
    and dist: "distinct (df_values out)"
    by blast
  from df have dfeq: "df = dirty_sales" by (simp add: cafe_world_def)
  have "(case repair cafe_pandas ''dirty.csv'' dirty_sales of
           (ms, Inl e) \<Rightarrow> None
         | (ms, Inr d) \<Rightarrow> Some (map (\<lambda>r. [r ''Transaction ID'', r ''Total Spent'']) (rows d)))
        = Some [[Str ''TXN_1'', Num 7], [Str ''TXN_4'', Num 9], [Str ''TXN_4'', Num 9],
                [Str ''TXN_6'', Num 2], [Str ''TXN_7'', Num 6]]"
    by code_simp
  with rep dfeq have pre: "map (\<lambda>r. [r ''Transaction ID'', r ''Total Spent'']) (rows d5) =
       [[Str ''TXN_1'', Num 7], [Str ''TXN_4'', Num 9], [Str ''TXN_4'', Num 9],
        [Str ''TXN_6'', Num 2], [Str ''TXN_7'', Num 6]]"
    by simp
  from run rep dfeq pre vals dist show ?thesis
    by (intro exI [of _ ms] exI [of _ d5] exI [of _ out] conjI) simp_all
qed



text \<open>
  Claim C6. The output has at most as many rows as the loaded table, and exactly as many
  as the loaded table minus the rows of the standardized table with a missing marker in an
  essential column (the number the script prints) minus the rows flagged as duplicates
  after the total is recalculated.
\<close>

theorem row_count_accounting:
  assumes "to_csv_call (clean_data pd w input_file output_file) = Some (p, out)"
  shows "\<exists>df d1 ms d5.
           read_csv w input_file = Inr df \<and> adjust_types pd df = Inr d1 \<and>
           repair pd input_file df = (ms, Inr d5) \<and>
           length (rows out) \<le> length (rows df) \<and>
           int (length (rows out)) =
             int (length (rows df))
             - int (length (filter (\<lambda>r. \<exists>c\<in>set essential_columns. r c = NaN)
                              (rows (replace_values values_to_treat_as_null d1))))
             - int (length (filter id (duplicated d5))) \<and>
           RowsRemoved (length (filter (\<lambda>r. \<exists>c\<in>set essential_columns. r c = NaN)
                              (rows (replace_values values_to_treat_as_null d1)))) \<in> set ms"
proof -
  from assms obtain df d1 d3 ms d5 where
    df: "read_csv w input_file = Inr df"
    and d1: "adjust_types pd df = Inr d1" and l1: "length (rows d1) = length (rows df)"
    and d3: "dropna essential_columns (replace_values values_to_treat_as_null d1) = Inr d3"
    and rep: "repair pd input_file df = (ms, Inr d5)"
    and ms: "RowsRemoved (length (rows df) - length (rows d3)) \<in> set ms"
    and l5: "length (rows d5) = length (rows d3)"
    and out: "out = drop_duplicates d5"
    by (rule run_written) simp
  let ?d2 = "replace_values values_to_treat_as_null d1"
  let ?bad = "filter (\<lambda>r. \<exists>c\<in>set essential_columns. r c = NaN) (rows ?d2)"
  have "length (rows d3) + length ?bad = length (rows ?d2)"
    using sum_length_filter_compl [of "\<lambda>r. \<forall>c\<in>set essential_columns. r c \<noteq> NaN" "rows ?d2"]
    by (simp add: dropna_rows [OF d3])
  then have a: "length (rows d3) + length ?bad = length (rows df)"
    using l1 by (simp add: replace_values_simps)
  have b: "length (rows out) + length (filter id (duplicated d5)) = length (rows d3)"
    unfolding out using drop_duplicates_simps(4) [of d5] l5 by simp
  from a have removed: "length (rows df) - length (rows d3) = length ?bad" by simp
  from a b have "length (rows out) \<le> length (rows df)" by simp
  moreover from a b have "int (length (rows out)) =
             int (length (rows df)) - int (length ?bad) - int (length (filter id (duplicated d5)))"
    by simp
  ultimately show ?thesis using df d1 rep ms removed by auto
qed

theorem row_count_accounting_witness:
  "\<exists>d1 ms d5 out.
     to_csv_call (clean_data cafe_pandas cafe_world ''dirty.csv'' ''clean.csv'') = Some (''clean.csv'', out) \<and>
     adjust_types cafe_pandas dirty_sales = Inr d1 \<and>
     repair cafe_pandas ''dirty.csv'' dirty_sales = (ms, Inr d5) \<and>
     length (rows dirty_sales) = 7 \<and>
     length (filter (\<lambda>r. \<exists>c\<in>set essential_columns. r c = NaN)
               (rows (replace_values values_to_treat_as_null d1))) = 2 \<and>
     length (filter id (duplicated d5)) = 1 \<and>
     length (rows out) = 4"
proof -
  have "map_option (\<lambda>(p, d). (p, length (rows d)))
          (to_csv_call (clean_data cafe_pandas cafe_world ''dirty.csv'' ''clean.csv''))
        = Some (''clean.csv'', 4)"
    by code_simp
  then obtain out where
    run: "to_csv_call (clean_data cafe_pandas cafe_world ''dirty.csv'' ''clean.csv'') = Some (''clean.csv'', out)"
    and len: "length (rows out) = 4"
    by auto
  from row_count_accounting [OF run] obtain df d1 ms d5 where
    df: "read_csv cafe_world ''dirty.csv'' = Inr df"
    and d1: "adjust_types cafe_pandas df = Inr d1"
    and rep: "repair cafe_pandas ''dirty.csv'' df = (ms, Inr d5)"
    and eq: "int (length (rows out)) =
             int (length (rows df))
             - int (length (filter (\<lambda>r. \<exists>c\<in>set essential_columns. r c = NaN)
                              (rows (replace_values values_to_treat_as_null d1))))
             - int (length (filter id (duplicated d5)))"
    by blast
  from df have dfeq: "df = dirty_sales" by (simp add: cafe_world_def)
  have l0: "length (rows dirty_sales) = 7" by (simp add: dirty_sales_def)
  have "(case repair cafe_pandas ''dirty.csv'' dirty_sales of
           (ms, Inl e) \<Rightarrow> None
         | (ms, Inr d) \<Rightarrow> Some (length (filter id (duplicated d)))) = Some 1"
    by code_simp
  with rep dfeq have dups: "length (filter id (duplicated d5)) = 1" by simp
  from eq len l0 dups dfeq
  have bad: "length (filter (\<lambda>r. \<exists>c\<in>set essential_columns. r c = NaN)
               (rows (replace_values values_to_treat_as_null d1))) = 2"
    by simp
  from run d1 rep dfeq l0 bad dups len show ?thesis
    by (intro exI [of _ d1] exI [of _ ms] exI [of _ d5] exI [of _ out] conjI) simp_all
qed

text \<open>
  Claim C7, amended. When \<^verbatim>\<open>read_csv\<close> raises FileNotFoundError, the run prints the
  not-found message and returns: nothing else is printed, no exception leaves the function
  and \<^verbatim>\<open>to_csv\<close> is not called. Any other exception of the load is not caught: it
  leaves \<^verbatim>\<open>clean_data\<close> with nothing printed, and \<^verbatim>\<open>to_csv\<close> is not called either.
\<close>

theorem load_failure_outcome:
  assumes "read_csv w input_file = Inl e"
  shows "clean_data pd w input_file output_file =
           (if e = FileNotFoundError
            then \<lparr>printed = [FileNotFound input_file], raised = None, to_csv_call = None\<rparr>
            else \<lparr>printed = [], raised = Some e, to_csv_call = None\<rparr>)"
  using assms by (simp add: clean_data_def uncaught_def)

theorem load_failure_outcome_witness:
  "read_csv cafe_world ''absent.csv'' = Inl FileNotFoundError \<and>
   clean_data cafe_pandas cafe_world ''absent.csv'' ''clean.csv''
     = \<lparr>printed = [FileNotFound ''absent.csv''], raised = None, to_csv_call = None\<rparr>"
proof -
  have h: "read_csv cafe_world ''absent.csv'' = Inl FileNotFoundError"
    by (simp add: cafe_world_def)
  from load_failure_outcome [OF h, of cafe_pandas "''clean.csv''"] h show ?thesis by simp
qed

text \<open>
  The claim as written also covers an input that exists but cannot be read. There the
  load failure is not reported: PermissionError leaves the function uncaught.
\<close>

theorem unreadable_input_counterexample:
  "read_csv cafe_world ''locked.csv'' = Inl PermissionError \<and>
   clean_data cafe_pandas cafe_world ''locked.csv'' ''clean.csv''
     = \<lparr>printed = [], raised = Some PermissionError, to_csv_call = None\<rparr>"
  by (simp add: clean_data_def cafe_world_def uncaught_def)





text \<open>
  Claim C10, amended. When the loaded table's header lacks one of the seven named columns,
  the run ends with an uncaught KeyError and \<^verbatim>\<open>to_csv\<close> is never called; so a run without
  an uncaught exception needs all seven. The KeyError carries the label of a missing column
  (from \<^verbatim>\<open>df[column]\<close>, or from \<^verbatim>\<open>dropna\<close> for Item), with one exception: when Payment
  Method is the only missing column and Location holds no value after the drop, the
  KeyError is that of \<^verbatim>\<open>mode()[0]\<close> on Location, position 0.
\<close>

theorem incomplete_header_key_error:
  assumes "read_csv w input_file = Inr df"
    and "c \<in> set numeric_columns \<union> set essential_columns \<union> set contextual_columns"
    and "c \<notin> set (columns df)"
  shows "\<exists>k. raised (clean_data pd w input_file output_file) = Some (KeyError k) \<and>
             to_csv_call (clean_data pd w input_file output_file) = None \<and>
             ((\<exists>c'. c' \<in> set numeric_columns \<union> set essential_columns \<union> set contextual_columns \<and>
                    c' \<notin> set (columns df) \<and> (k = Label c' \<or> k = Labels [c'])) \<or>
              (k = Position 0 \<and> ''Payment Method'' \<notin> set (columns df) \<and>
               set numeric_columns \<union> set essential_columns \<union> {''Location''} \<subseteq> set (columns df) \<and>
               (\<exists>d3. after_drop pd df = Inr d3 \<and> (\<forall>r\<in>set (rows d3). r ''Location'' = NaN))))"
proof -
  from assms(2,3)
  have "\<not> set numeric_columns \<union> set essential_columns \<union> set contextual_columns \<subseteq> set (columns df)"
    by blast
  from repair_incomplete [OF this, of pd input_file] obtain ms k where
    rep: "repair pd input_file df = (ms, Inl (KeyError k))"
    and k: "(\<exists>c'. c' \<in> set numeric_columns \<union> set essential_columns \<union> set contextual_columns \<and>
                  c' \<notin> set (columns df) \<and> (k = Label c' \<or> k = Labels [c'])) \<or>
            (k = Position 0 \<and> ''Payment Method'' \<notin> set (columns df) \<and>
             set numeric_columns \<union> set essential_columns \<union> {''Location''} \<subseteq> set (columns df) \<and>
             (\<exists>d3. after_drop pd df = Inr d3 \<and> (\<forall>r\<in>set (rows d3). r ''Location'' = NaN)))"
    by blast
  from assms(1) rep have "raised (clean_data pd w input_file output_file) = Some (KeyError k)"
    and "to_csv_call (clean_data pd w input_file output_file) = None"
    by (simp_all add: clean_data_def uncaught_def)
  with k show ?thesis by blast
qed

theorem incomplete_header_key_error_witness:
  "read_csv cafe_world ''short.csv'' = Inr short_sales \<and>
   ''Payment Method'' \<in> set numeric_columns \<union> set essential_columns \<union> set contextual_columns \<and>
   ''Payment Method'' \<notin> set (columns short_sales) \<and>
   raised (clean_data cafe_pandas cafe_world ''short.csv'' ''clean.csv'')
     = Some (KeyError (Label ''Payment Method'')) \<and>
   (\<exists>k. raised (clean_data cafe_pandas cafe_world ''short.csv'' ''clean.csv'') = Some (KeyError k) \<and>
        to_csv_call (clean_data cafe_pandas cafe_world ''short.csv'' ''clean.csv'') = None)"
proof -
  have rd: "read_csv cafe_world ''short.csv'' = Inr short_sales"
    by (simp add: cafe_world_def)
  have c: "''Payment Method'' \<in> set numeric_columns \<union> set essential_columns \<union> set contextual_columns"
    by (simp add: contextual_columns_def)
  have m: "''Payment Method'' \<notin> set (columns short_sales)"
    by (simp add: short_sales_def short_header_def)
  have r: "raised (clean_data cafe_pandas cafe_world ''short.csv'' ''clean.csv'')
     = Some (KeyError (Label ''Payment Method''))"
    by code_simp
  from incomplete_header_key_error [OF rd c m, of cafe_pandas "''clean.csv''"]
  have "\<exists>k. raised (clean_data cafe_pandas cafe_world ''short.csv'' ''clean.csv'') = Some (KeyError k) \<and>
        to_csv_call (clean_data cafe_pandas cafe_world ''short.csv'' ''clean.csv'') = None"
    by blast
  with rd c m r show ?thesis by (intro conjI)
qed

text \<open>
  The claim as written has the access to the missing column raise the KeyError. In
  \<open>short_no_location_sales\<close> only Payment Method is missing and Location is all
  \<^verbatim>\<open>UNKNOWN\<close>: the run ends at \<^verbatim>\<open>mode()[0]\<close> of Location, before Payment Method is
  accessed.
\<close>

theorem missing_column_not_accessed_counterexample:
  "read_csv cafe_world ''short_no_location.csv'' = Inr short_no_location_sales \<and>
   ''Payment Method'' \<notin> set (columns short_no_location_sales) \<and>
   set (columns short_no_location_sales) \<inter>
     (set numeric_columns \<union> set essential_columns \<union> set contextual_columns)
     = set numeric_columns \<union> set essential_columns \<union> {''Location''} \<and>
   raised (clean_data cafe_pandas cafe_world ''short_no_location.csv'' ''clean.csv'')
     = Some (KeyError (Position 0)) \<and>
   printed (clean_data cafe_pandas cafe_world ''short_no_location.csv'' ''clean.csv'')
     = [FileLoaded ''short_no_location.csv'', AdjustingTypes, TypesAdjusted, StandardizingValues,
        ValuesStandardized, CorrectingErrors, RowsRemoved 0]"
proof (intro conjI)
  show "read_csv cafe_world ''short_no_location.csv'' = Inr short_no_location_sales"
    by (simp add: cafe_world_def)
  show "''Payment Method'' \<notin> set (columns short_no_location_sales)"
    by (simp add: short_no_location_sales_def short_header_def)
  show "set (columns short_no_location_sales) \<inter>
     (set numeric_columns \<union> set essential_columns \<union> set contextual_columns)
     = set numeric_columns \<union> set essential_columns \<union> {''Location''}"
    by (auto simp: short_no_location_sales_def short_header_def numeric_columns_def
          essential_columns_def contextual_columns_def)
  show "raised (clean_data cafe_pandas cafe_world ''short_no_location.csv'' ''clean.csv'')
     = Some (KeyError (Position 0))"
    by code_simp
  show "printed (clean_data cafe_pandas cafe_world ''short_no_location.csv'' ''clean.csv'')
     = [FileLoaded ''short_no_location.csv'', AdjustingTypes, TypesAdjusted, StandardizingValues,
        ValuesStandardized, CorrectingErrors, RowsRemoved 0]"
    by code_simp
qed

end
